theory Spec2Isabelle
  imports Main "HOL-Library.Char_ord" "HOL-Library.List_Lexorder"
begin

section \<open>ECMAScript time values\<close>

text \<open>
  A JavaScript \<^verbatim>\<open>Date\<close> is modelled by its time value: the number of milliseconds since
  1970-01-01T00:00:00Z, an \<^typ>\<open>int\<close>. The functions below are the abstract operations of
  the ECMAScript specification (section "Time Values and Time Range") that the methods used
  by \<^verbatim>\<open>bot.js\<close> are defined by. All time values are taken to be valid (inside the range
  of \<^verbatim>\<open>TimeClip\<close>), so no \<^verbatim>\<open>Date\<close> is an Invalid Date.
\<close>

definition msPerDay :: int where
  "msPerDay = 86400000"

definition Day :: "int \<Rightarrow> int" where
  "Day t = t div msPerDay"

definition TimeWithinDay :: "int \<Rightarrow> int" where
  "TimeWithinDay t = t mod msPerDay"

definition DaysInYear :: "int \<Rightarrow> int" where
  "DaysInYear y =
     (if y mod 4 \<noteq> 0 then 365
      else if y mod 100 \<noteq> 0 then 366
      else if y mod 400 \<noteq> 0 then 365
      else 366)"

definition DayFromYear :: "int \<Rightarrow> int" where
  "DayFromYear y =
     365 * (y - 1970) + (y - 1969) div 4 - (y - 1901) div 100 + (y - 1601) div 400"

lemma div_succ:
  fixes a n :: int
  assumes "0 < n"
  shows "(a + 1) div n = a div n + (if (a + 1) mod n = 0 then 1 else 0)"
proof (cases "a mod n + 1 < n")
  case True
  have eq: "a + 1 = n * (a div n) + (a mod n + 1)" by simp
  have nonneg: "0 \<le> a mod n" using assms by simp
  then have "(a + 1) div n = a div n" "(a + 1) mod n = a mod n + 1"
    using int_div_pos_eq [OF eq _ True] int_mod_pos_eq [OF eq _ True] by simp_all
  moreover have "a mod n + 1 \<noteq> 0" using nonneg by simp
  ultimately show ?thesis by simp
next
  case False
  have "a mod n < n" using assms by simp
  with False have r: "a mod n + 1 = n" by simp
  have "n * (a div n + 1) + 0 = n * (a div n) + n" by (simp add: algebra_simps)
  also have "\<dots> = n * (a div n) + (a mod n + 1)" by (simp only: r)
  also have "\<dots> = a + 1" by simp
  finally have eq: "a + 1 = n * (a div n + 1) + 0" by (rule sym)
  have "(a + 1) div n = a div n + 1" "(a + 1) mod n = 0"
    using int_div_pos_eq [OF eq _ assms] int_mod_pos_eq [OF eq _ assms] by simp_all
  then show ?thesis by simp
qed

lemma mod4_shift: "(y - 1969 + 1) mod 4 = 0 \<longleftrightarrow> y mod 4 = 0" for y :: int
proof -
  have "(y - 1969 + 1) mod 4 = (y + 4 * (- 492)) mod 4" by simp
  also have "\<dots> = y mod 4" by (simp only: mod_mult_self2)
  finally show ?thesis by simp
qed

lemma mod100_shift: "(y - 1901 + 1) mod 100 = 0 \<longleftrightarrow> y mod 100 = 0" for y :: int
proof -
  have "(y - 1901 + 1) mod 100 = (y + 100 * (- 19)) mod 100" by simp
  also have "\<dots> = y mod 100" by (simp only: mod_mult_self2)
  finally show ?thesis by simp
qed

lemma mod400_shift: "(y - 1601 + 1) mod 400 = 0 \<longleftrightarrow> y mod 400 = 0" for y :: int
proof -
  have "(y - 1601 + 1) mod 400 = (y + 400 * (- 4)) mod 400" by simp
  also have "\<dots> = y mod 400" by (simp only: mod_mult_self2)
  finally show ?thesis by simp
qed

lemma mod100_imp_mod4: "y mod 100 = 0 \<Longrightarrow> y mod 4 = 0" for y :: int
  using mod_mod_cancel [of 4 100 y] by simp

lemma mod400_imp_mod100: "y mod 400 = 0 \<Longrightarrow> y mod 100 = 0" for y :: int
  using mod_mod_cancel [of 100 400 y] by simp

lemma DayFromYear_step: "DayFromYear (y + 1) = DayFromYear y + DaysInYear y"
proof -
  have a: "(y + 1 - 1969) div 4 = (y - 1969) div 4 + (if y mod 4 = 0 then 1 else 0)"
    using div_succ [of 4 "y - 1969"] mod4_shift [of y] by (simp add: algebra_simps)
  have b: "(y + 1 - 1901) div 100 = (y - 1901) div 100 + (if y mod 100 = 0 then 1 else 0)"
    using div_succ [of 100 "y - 1901"] mod100_shift [of y] by (simp add: algebra_simps)
  have c: "(y + 1 - 1601) div 400 = (y - 1601) div 400 + (if y mod 400 = 0 then 1 else 0)"
    using div_succ [of 400 "y - 1601"] mod400_shift [of y] by (simp add: algebra_simps)
  show ?thesis
    using mod100_imp_mod4 [of y] mod400_imp_mod100 [of y]
    unfolding DayFromYear_def DaysInYear_def a b c by (auto simp: algebra_simps)
qed

lemma DaysInYear_bounds: "365 \<le> DaysInYear y \<and> DaysInYear y \<le> 366"
  by (simp add: DaysInYear_def)

lemma DayFromYear_less_step: "DayFromYear y < DayFromYear (y + 1)"
  using DaysInYear_bounds [of y] by (simp add: DayFromYear_step)

text \<open>
  \<^verbatim>\<open>YearFromTime(t)\<close> is "the largest integer y such that TimeFromYear(y) \<le> t". It is
  computed by a search upwards from a year that is not after the answer; lemma
  \<open>YearFromDay_iff\<close> below shows that the result is the year of the specification.
\<close>

function year_search :: "int \<Rightarrow> int \<Rightarrow> int" where
  "year_search d y = (if DayFromYear (y + 1) \<le> d then year_search d (y + 1) else y)"
  by pat_completeness auto
termination
proof (relation "measure (\<lambda>(d, y). nat (d - DayFromYear (y + 1) + 1))")
  show "wf (measure (\<lambda>(d, y). nat (d - DayFromYear (y + 1) + 1)))"
    by simp
next
  fix d y :: int
  assume "DayFromYear (y + 1) \<le> d"
  moreover have "DayFromYear (y + 1) < DayFromYear (y + 1 + 1)"
    by (rule DayFromYear_less_step)
  ultimately show "((d, y + 1), (d, y)) \<in> measure (\<lambda>(d, y). nat (d - DayFromYear (y + 1) + 1))"
    by simp
qed

declare year_search.simps [simp del]

definition YearFromDay :: "int \<Rightarrow> int" where
  "YearFromDay d = year_search d (1970 + (if 0 \<le> d then d div 366 else d div 365))"

definition YearFromTime :: "int \<Rightarrow> int" where
  "YearFromTime t = YearFromDay (Day t)"

lemma DayFromYear_1970: "DayFromYear 1970 = 0"
  by (simp add: DayFromYear_def)

lemma DayFromYear_lower: "y \<le> y' \<Longrightarrow> DayFromYear y + 365 * (y' - y) \<le> DayFromYear y'"
proof (induction y' rule: int_ge_induct)
  case base
  show ?case by simp
next
  case (step i)
  have "DayFromYear (i + 1) = DayFromYear i + DaysInYear i" by (rule DayFromYear_step)
  with step.IH DaysInYear_bounds [of i] show ?case by (simp add: algebra_simps)
qed

lemma DayFromYear_upper: "y \<le> y' \<Longrightarrow> DayFromYear y' \<le> DayFromYear y + 366 * (y' - y)"
proof (induction y' rule: int_ge_induct)
  case base
  show ?case by simp
next
  case (step i)
  have "DayFromYear (i + 1) = DayFromYear i + DaysInYear i" by (rule DayFromYear_step)
  with step.IH DaysInYear_bounds [of i] show ?case by (simp add: algebra_simps)
qed

lemma DayFromYear_mono: "y \<le> y' \<Longrightarrow> DayFromYear y \<le> DayFromYear y'"
  using DayFromYear_lower [of y y'] by simp

lemma DayFromYear_strict_mono: "y < y' \<Longrightarrow> DayFromYear y < DayFromYear y'"
  using DayFromYear_lower [of y y'] by simp

lemma year_search_bounds:
  "DayFromYear y \<le> d \<Longrightarrow>
     DayFromYear (year_search d y) \<le> d \<and> d < DayFromYear (year_search d y + 1)"
proof (induction d y rule: year_search.induct)
  case (1 d y)
  show ?case
  proof (cases "DayFromYear (y + 1) \<le> d")
    case True
    with "1.IH" show ?thesis by (simp add: year_search.simps [of d y])
  next
    case False
    with "1.prems" show ?thesis by (simp add: year_search.simps [of d y])
  qed
qed

lemma year_estimate: "DayFromYear (1970 + (if 0 \<le> d then d div 366 else d div 365)) \<le> d"
proof (cases "0 \<le> d")
  case True
  then have k: "0 \<le> d div 366" by simp
  have "DayFromYear (1970 + d div 366) \<le> DayFromYear 1970 + 366 * (1970 + d div 366 - 1970)"
    using k by (intro DayFromYear_upper) simp
  also have "\<dots> = 366 * (d div 366)" by (simp add: DayFromYear_1970)
  also have "\<dots> \<le> d" by (simp add: algebra_simps)
  finally show ?thesis using True by simp
next
  case False
  then have "d div 365 < 0" by (simp add: pos_imp_zdiv_neg_iff)
  then have k: "d div 365 \<le> 0" by simp
  have "DayFromYear (1970 + d div 365) + 365 * (1970 - (1970 + d div 365)) \<le> DayFromYear 1970"
    using k by (intro DayFromYear_lower) simp
  then have "DayFromYear (1970 + d div 365) \<le> 365 * (d div 365)"
    by (simp add: DayFromYear_1970)
  also have "\<dots> \<le> d" by (simp add: algebra_simps)
  finally show ?thesis using False by simp
qed

lemma YearFromDay_bounds:
  "DayFromYear (YearFromDay d) \<le> d \<and> d < DayFromYear (YearFromDay d + 1)"
  unfolding YearFromDay_def by (rule year_search_bounds) (rule year_estimate)

lemma YearFromDay_unique:
  assumes "DayFromYear y \<le> d" and "d < DayFromYear (y + 1)"
  shows "YearFromDay d = y"
proof (rule ccontr)
  assume ne: "YearFromDay d \<noteq> y"
  note b = YearFromDay_bounds [of d]
  show False
  proof (cases "YearFromDay d < y")
    case True
    then have "DayFromYear (YearFromDay d + 1) \<le> DayFromYear y"
      by (intro DayFromYear_mono) simp
    with b assms show False by simp
  next
    case False
    with ne have "DayFromYear (y + 1) \<le> DayFromYear (YearFromDay d)"
      by (intro DayFromYear_mono) simp
    with b assms show False by simp
  qed
qed

text \<open>The year computed is the largest one that starts on or before the day.\<close>

lemma YearFromDay_iff: "y \<le> YearFromDay d \<longleftrightarrow> DayFromYear y \<le> d"
proof
  assume "y \<le> YearFromDay d"
  then have "DayFromYear y \<le> DayFromYear (YearFromDay d)" by (rule DayFromYear_mono)
  with YearFromDay_bounds [of d] show "DayFromYear y \<le> d" by simp
next
  assume le: "DayFromYear y \<le> d"
  show "y \<le> YearFromDay d"
  proof (rule ccontr)
    assume "\<not> y \<le> YearFromDay d"
    then have "DayFromYear (YearFromDay d + 1) \<le> DayFromYear y"
      by (intro DayFromYear_mono) simp
    with YearFromDay_bounds [of d] le show False by simp
  qed
qed

subsection \<open>Months, dates and the construction of time values\<close>

definition InLeapYear :: "int \<Rightarrow> int" where
  "InLeapYear t = (if DaysInYear (YearFromTime t) = 366 then 1 else 0)"

definition DayWithinYear :: "int \<Rightarrow> int" where
  "DayWithinYear t = Day t - DayFromYear (YearFromTime t)"

text \<open>
  \<open>month_start L m\<close> is the day within the year on which month \<open>m\<close> (0 = January) begins,
  \<open>L\<close> being 1 in a leap year and 0 otherwise: the bounds of the table of
  \<^verbatim>\<open>MonthFromTime\<close>.
\<close>

definition month_start :: "int \<Rightarrow> int \<Rightarrow> int" where
  "month_start L m =
     (if m = 0 then 0 else if m = 1 then 31 else if m = 2 then 59 + L
      else if m = 3 then 90 + L else if m = 4 then 120 + L else if m = 5 then 151 + L
      else if m = 6 then 181 + L else if m = 7 then 212 + L else if m = 8 then 243 + L
      else if m = 9 then 273 + L else if m = 10 then 304 + L else 334 + L)"

definition month_of_day :: "int \<Rightarrow> int \<Rightarrow> int" where
  "month_of_day L diy =
     (if diy < 31 then 0 else if diy < 59 + L then 1 else if diy < 90 + L then 2
      else if diy < 120 + L then 3 else if diy < 151 + L then 4 else if diy < 181 + L then 5
      else if diy < 212 + L then 6 else if diy < 243 + L then 7 else if diy < 273 + L then 8
      else if diy < 304 + L then 9 else if diy < 334 + L then 10 else 11)"

definition MonthFromTime :: "int \<Rightarrow> int" where
  "MonthFromTime t = month_of_day (InLeapYear t) (DayWithinYear t)"

definition DateFromTime :: "int \<Rightarrow> int" where
  "DateFromTime t = DayWithinYear t - month_start (InLeapYear t) (MonthFromTime t) + 1"

definition WeekDay :: "int \<Rightarrow> int" where
  "WeekDay t = (Day t + 4) mod 7"

definition MakeTime :: "int \<Rightarrow> int \<Rightarrow> int \<Rightarrow> int \<Rightarrow> int" where
  "MakeTime hour minute sec ms = hour * 3600000 + minute * 60000 + sec * 1000 + ms"

text \<open>
  \<^verbatim>\<open>MakeDay(year, month, date)\<close>: the day number of the first day of month
  \<open>month mod 12\<close> of year \<open>year + month div 12\<close>, plus \<open>date - 1\<close>. Months and dates
  outside their calendar range carry over, as in ECMAScript.
\<close>

definition MakeDay :: "int \<Rightarrow> int \<Rightarrow> int \<Rightarrow> int" where
  "MakeDay year month date =
     (let ym = year + month div 12;
          mn = month mod 12
      in DayFromYear ym + month_start (if DaysInYear ym = 366 then 1 else 0) mn + date - 1)"

definition MakeDate :: "int \<Rightarrow> int \<Rightarrow> int" where
  "MakeDate day time = day * msPerDay + time"

text \<open>
  \<^verbatim>\<open>Date.UTC(year, month, date, hours, minutes, seconds)\<close>. A year from 0 to 99 is
  read as a year of the twentieth century.
\<close>

definition Date_UTC :: "int \<Rightarrow> int \<Rightarrow> int \<Rightarrow> int \<Rightarrow> int \<Rightarrow> int \<Rightarrow> int" where
  "Date_UTC year month date hours minutes seconds =
     (let yr = (if 0 \<le> year \<and> year \<le> 99 then 1900 + year else year)
      in MakeDate (MakeDay yr month date) (MakeTime hours minutes seconds 0))"

definition getUTCFullYear :: "int \<Rightarrow> int" where
  "getUTCFullYear t = YearFromTime t"

definition getUTCMonth :: "int \<Rightarrow> int" where
  "getUTCMonth t = MonthFromTime t"

definition getUTCDate :: "int \<Rightarrow> int" where
  "getUTCDate t = DateFromTime t"

definition getUTCDay :: "int \<Rightarrow> int" where
  "getUTCDay t = WeekDay t"

definition setUTCDate :: "int \<Rightarrow> int \<Rightarrow> int" where
  "setUTCDate t date =
     MakeDate (MakeDay (YearFromTime t) (MonthFromTime t) date) (TimeWithinDay t)"

definition setUTCMonth :: "int \<Rightarrow> int \<Rightarrow> int" where
  "setUTCMonth t month =
     MakeDate (MakeDay (YearFromTime t) month (DateFromTime t)) (TimeWithinDay t)"

lemma month_of_day_range: "0 \<le> month_of_day L diy \<and> month_of_day L diy \<le> 11"
  by (simp add: month_of_day_def)

lemma MonthFromTime_range: "0 \<le> MonthFromTime t \<and> MonthFromTime t \<le> 11"
  unfolding MonthFromTime_def by (rule month_of_day_range)

lemma InLeapYear_cases: "InLeapYear t = 0 \<or> InLeapYear t = 1"
  by (simp add: InLeapYear_def)

lemma DaysInYear_InLeapYear: "DaysInYear (YearFromTime t) = 365 + InLeapYear t"
  using DaysInYear_bounds [of "YearFromTime t"] by (simp add: InLeapYear_def)

lemma DayWithinYear_range: "0 \<le> DayWithinYear t \<and> DayWithinYear t < 365 + InLeapYear t"
proof -
  have "DayFromYear (YearFromTime t + 1) = DayFromYear (YearFromTime t) + (365 + InLeapYear t)"
    by (simp add: DayFromYear_step DaysInYear_InLeapYear)
  with YearFromDay_bounds [of "Day t"] show ?thesis
    by (simp add: DayWithinYear_def YearFromTime_def)
qed

lemma MakeDay_of_time:
  "MakeDay (YearFromTime t) (MonthFromTime t) date = Day t + (date - DateFromTime t)"
proof -
  have m: "MonthFromTime t div 12 = 0" "MonthFromTime t mod 12 = MonthFromTime t"
    using MonthFromTime_range [of t] by simp_all
  show ?thesis
    by (simp add: MakeDay_def m DateFromTime_def DayWithinYear_def InLeapYear_def)
qed

lemma MakeDate_Day: "0 \<le> time \<Longrightarrow> time < msPerDay \<Longrightarrow> Day (MakeDate day time) = day"
  by (simp add: Day_def MakeDate_def msPerDay_def)

lemma MakeDate_Day_TimeWithinDay: "MakeDate (Day t) (TimeWithinDay t) = t"
  by (simp add: MakeDate_def Day_def TimeWithinDay_def)

lemma month_index_cases:
  fixes m :: int
  assumes "0 \<le> m" and "m \<le> 11"
  shows "m \<in> {0, 1, 2, 3, 4, 5, 6, 7, 8, 9, 10, 11}"
proof -
  have s: "a \<le> m \<Longrightarrow> m = a \<or> a + 1 \<le> m" for a by linarith
  show ?thesis
    using assms s [of 0] s [of 1] s [of 2] s [of 3] s [of 4] s [of 5] s [of 6] s [of 7]
      s [of 8] s [of 9] s [of 10] s [of 11]
    by auto
qed

lemma month_start_next:
  assumes "0 \<le> m" and "m < 11" and "L = 0 \<or> L = 1"
  shows "month_start L m + 28 \<le> month_start L (m + 1)"
proof -
  from assms have "m \<in> {0, 1, 2, 3, 4, 5, 6, 7, 8, 9, 10, 11}"
    by (intro month_index_cases) simp_all
  with assms(2,3) show ?thesis
    by (elim insertE emptyE disjE; simp add: month_start_def)
qed

text \<open>Every month has at least 28 days: the same date one month later is at least 28 days later.\<close>

lemma MakeDay_next_month:
  assumes "0 \<le> m" and "m \<le> 11"
  shows "MakeDay y m d + 28 \<le> MakeDay y (m + 1) d"
proof (cases "m = 11")
  case True
  have "DayFromYear (y + 1) = DayFromYear y + DaysInYear y" by (rule DayFromYear_step)
  with DaysInYear_bounds [of y] show ?thesis
    by (simp add: True MakeDay_def month_start_def)
next
  case False
  with assms have lt: "m < 11" by simp
  with assms have dm: "m div 12 = 0" "m mod 12 = m" "(m + 1) div 12 = 0" "(m + 1) mod 12 = m + 1"
    by simp_all
  define L :: int where "L = (if DaysInYear y = 366 then 1 else 0)"
  have "L = 0 \<or> L = 1" by (simp add: L_def)
  then have "month_start L m + 28 \<le> month_start L (m + 1)"
    by (rule month_start_next [OF assms(1) lt])
  then show ?thesis by (simp add: MakeDay_def dm L_def)
qed

lemma setUTCMonth_next_greater: "t < setUTCMonth t (getUTCMonth t + 1)"
proof -
  have "MakeDay (YearFromTime t) (MonthFromTime t) (DateFromTime t) + 28
      \<le> MakeDay (YearFromTime t) (MonthFromTime t + 1) (DateFromTime t)"
    using MonthFromTime_range [of t] by (intro MakeDay_next_month) simp_all
  then have "Day t + 28 \<le> MakeDay (YearFromTime t) (MonthFromTime t + 1) (DateFromTime t)"
    by (simp add: MakeDay_of_time)
  then have "Day t * msPerDay + 28 * msPerDay
      \<le> MakeDay (YearFromTime t) (MonthFromTime t + 1) (DateFromTime t) * msPerDay"
    by (simp add: msPerDay_def)
  moreover have "t = Day t * msPerDay + TimeWithinDay t"
    by (simp add: Day_def TimeWithinDay_def)
  ultimately show ?thesis
    by (simp add: setUTCMonth_def getUTCMonth_def MakeDate_def msPerDay_def)
qed

lemma month_of_day_month_start:
  assumes "0 \<le> m" and "m \<le> 11" and "L = 0 \<or> L = 1"
  shows "month_of_day L (month_start L m) = m"
proof -
  from assms have "m \<in> {0, 1, 2, 3, 4, 5, 6, 7, 8, 9, 10, 11}"
    by (intro month_index_cases)
  with assms(3) show ?thesis
    by (elim insertE emptyE disjE; simp add: month_start_def month_of_day_def)
qed

lemma month_start_range:
  assumes "0 \<le> m" and "m \<le> 11" and "L = 0 \<or> L = 1"
  shows "0 \<le> month_start L m \<and> month_start L m < 365 + L"
  using assms(3) by (elim disjE; simp add: month_start_def)

text \<open>
  The first day of a month, whatever the time of day, reads back as that month: the year is
  \<open>year + month div 12\<close>, the month \<open>month mod 12\<close> and the date 1.
\<close>

lemma first_of_month:
  fixes year month tm :: int
  assumes tm: "0 \<le> tm" "tm < msPerDay"
    and t_def: "t = MakeDate (MakeDay year month 1) tm"
  shows "YearFromTime t = year + month div 12"
    and "MonthFromTime t = month mod 12"
    and "DateFromTime t = 1"
proof -
  define ym where "ym = year + month div 12"
  define mn where "mn = month mod 12"
  define L :: int where "L = (if DaysInYear ym = 366 then 1 else 0)"
  have mn: "0 \<le> mn" "mn \<le> 11" by (simp_all add: mn_def)
  have L: "L = 0 \<or> L = 1" by (simp add: L_def)
  have day: "Day t = DayFromYear ym + month_start L mn"
    unfolding t_def by (simp add: MakeDate_Day [OF tm] MakeDay_def ym_def mn_def L_def)
  have diy: "DaysInYear ym = 365 + L"
    using DaysInYear_bounds [of ym] by (simp add: L_def)
  note r = month_start_range [OF mn L]
  have "DayFromYear ym \<le> Day t" using r by (simp add: day)
  moreover have "Day t < DayFromYear (ym + 1)"
    using r by (simp add: day DayFromYear_step diy)
  ultimately have y: "YearFromTime t = ym"
    unfolding YearFromTime_def by (rule YearFromDay_unique)
  then show "YearFromTime t = year + month div 12" by (simp add: ym_def)
  have leap: "InLeapYear t = L" by (simp add: InLeapYear_def y L_def)
  have within: "DayWithinYear t = month_start L mn" by (simp add: DayWithinYear_def y day)
  have m: "MonthFromTime t = mn"
    by (simp add: MonthFromTime_def leap within month_of_day_month_start [OF mn L])
  then show "MonthFromTime t = month mod 12" by (simp add: mn_def)
  show "DateFromTime t = 1" by (simp add: DateFromTime_def leap within m)
qed

section \<open>Strings\<close>

text \<open>
  Strings are \<^typ>\<open>string\<close>. The month keys of \<^verbatim>\<open>getStats\<close> are built from integers by a
  template literal, taken apart again by \<^verbatim>\<open>split('-')\<close> and \<^verbatim>\<open>Number\<close>, and ordered by
  the default \<^verbatim>\<open>Array.prototype.sort\<close>, which compares strings code unit by code unit: on
  the characters of a key that is the order of \<^typ>\<open>char list\<close>.
\<close>

definition digit_char :: "nat \<Rightarrow> char" where
  "digit_char n = ''0123456789'' ! n"

fun show_nat :: "nat \<Rightarrow> string" where
  "show_nat n = (if n < 10 then [digit_char n] else show_nat (n div 10) @ [digit_char (n mod 10)])"

declare show_nat.simps [simp del]

text \<open>\<^verbatim>\<open>String(i)\<close> for an integer \<open>i\<close>, as a template literal renders it.\<close>

definition js_String :: "int \<Rightarrow> string" where
  "js_String i = (if i < 0 then CHR ''-'' # show_nat (nat (- i)) else show_nat (nat i))"

text \<open>\<^verbatim>\<open>s.split(c)\<close> for a separator of one character.\<close>

fun split_on :: "char \<Rightarrow> string \<Rightarrow> string list" where
  "split_on c [] = [[]]"
| "split_on c (x # xs) =
     (if x = c then [] # split_on c xs
      else (case split_on c xs of [] \<Rightarrow> [[x]] | w # ws \<Rightarrow> (x # w) # ws))"

definition digit_value :: "char \<Rightarrow> int option" where
  "digit_value c = map_of (zip ''0123456789'' [0, 1, 2, 3, 4, 5, 6, 7, 8, 9]) c"

fun parse_digits :: "string \<Rightarrow> int \<Rightarrow> int option" where
  "parse_digits [] acc = Some acc"
| "parse_digits (c # cs) acc =
     (case digit_value c of None \<Rightarrow> None | Some v \<Rightarrow> parse_digits cs (10 * acc + v))"

text \<open>
  \<^verbatim>\<open>Number(s)\<close>, with \<open>None\<close> for \<^verbatim>\<open>NaN\<close>: exact on the empty string (0) and on strings of
  decimal digits, the only pieces that splitting a month key at \<^verbatim>\<open>'-'\<close> gives.
\<close>

definition js_Number :: "string \<Rightarrow> int option" where
  "js_Number s = (if s = [] then Some 0 else parse_digits s 0)"

text \<open>\<^verbatim>\<open>a > b\<close> where \<open>a\<close> may be \<^verbatim>\<open>NaN\<close> or \<^verbatim>\<open>undefined\<close>: then the comparison is false.\<close>

definition js_gt :: "int option \<Rightarrow> int \<Rightarrow> bool" where
  "js_gt a b = (case a of None \<Rightarrow> False | Some x \<Rightarrow> x > b)"

text \<open>An element of an array by destructuring; \<open>None\<close> is \<^verbatim>\<open>undefined\<close>.\<close>

definition elem :: "'a option list \<Rightarrow> nat \<Rightarrow> 'a option" where
  "elem xs i = (if i < length xs then xs ! i else None)"

text \<open>
  \<^verbatim>\<open>toLowerCase\<close> is the case mapping of the JavaScript engine, over all of Unicode. The
  model does not fix it: \<open>getStats\<close> takes it as the parameter \<open>toLowerCase\<close>, and what is
  proved of \<open>getStats\<close> holds for every such function. On a string of ASCII characters it
  is the function \<open>ascii_toLowerCase\<close> below, which stands for it in the examples, whose
  names are ASCII.
\<close>

definition lower_char :: "char \<Rightarrow> char" where
  "lower_char c =
     (case map_of (zip ''ABCDEFGHIJKLMNOPQRSTUVWXYZ'' ''abcdefghijklmnopqrstuvwxyz'') c of
        None \<Rightarrow> c
      | Some l \<Rightarrow> l)"

definition ascii_toLowerCase :: "string \<Rightarrow> string" where
  "ascii_toLowerCase s = map lower_char s"

text \<open>\<^verbatim>\<open>s.padStart(2, '0')\<close>.\<close>

definition padStart2 :: "string \<Rightarrow> string" where
  "padStart2 s = replicate (2 - length s) CHR ''0'' @ s"

section \<open>The months to fetch\<close>

datatype period_type = Daily | Weekly | Monthly | Yearly

text \<open>
  A JavaScript \<^verbatim>\<open>Set\<close> of strings is the list of its elements in insertion order;
  \<^verbatim>\<open>add\<close> appends an element that is not yet there.
\<close>

definition set_add :: "string \<Rightarrow> string list \<Rightarrow> string list" where
  "set_add k s = (if k \<in> set s then s else s @ [k])"

definition new_Set :: "string list \<Rightarrow> string list" where
  "new_Set xs = foldl (\<lambda>s k. set_add k s) [] xs"

definition month_key :: "int \<Rightarrow> int \<Rightarrow> string" where
  "month_key y m = js_String y @ ''-'' @ js_String m"

text \<open>
  The loop of the yearly period: \<open>iter\<close> starts at the first of January and moves on one
  month at a time while it is not after \<open>periodEnd\<close>.
\<close>

function yearly_loop :: "int \<Rightarrow> int \<Rightarrow> string list \<Rightarrow> string list" where
  "yearly_loop periodEnd iter months =
     (if iter \<le> periodEnd
      then yearly_loop periodEnd (setUTCMonth iter (getUTCMonth iter + 1))
             (set_add (month_key (getUTCFullYear iter) (getUTCMonth iter + 1)) months)
      else months)"
  by pat_completeness auto
termination
proof (relation "measure (\<lambda>(periodEnd, iter, months). nat (periodEnd - iter + 1))")
  show "wf (measure (\<lambda>(periodEnd, iter, months). nat (periodEnd - iter + 1)))"
    by simp
next
  fix periodEnd iter :: int and months :: "string list"
  assume "iter \<le> periodEnd"
  moreover have "iter < setUTCMonth iter (getUTCMonth iter + 1)"
    by (rule setUTCMonth_next_greater)
  ultimately show "((periodEnd, setUTCMonth iter (getUTCMonth iter + 1),
        set_add (month_key (getUTCFullYear iter) (getUTCMonth iter + 1)) months),
      (periodEnd, iter, months))
      \<in> measure (\<lambda>(periodEnd, iter, months). nat (periodEnd - iter + 1))"
    by simp
qed

declare yearly_loop.simps [simp del]

text \<open>The filter that removes future months, with \<open>now\<close> the clock read by \<^verbatim>\<open>getStats\<close>.\<close>

definition keep_month :: "int \<Rightarrow> string \<Rightarrow> bool" where
  "keep_month now m =
     (let parts = map js_Number (split_on CHR ''-'' m);
          y = elem parts 0;
          mon = elem parts 1
      in if js_gt y (getUTCFullYear now) then False
         else if y = Some (getUTCFullYear now) \<and> js_gt mon (getUTCMonth now + 1) then False
         else True)"

definition monthsToFetch :: "period_type \<Rightarrow> int \<Rightarrow> int \<Rightarrow> int \<Rightarrow> string list" where
  "monthsToFetch periodType periodStart periodEnd now =
     (let startMonth = getUTCMonth periodStart + 1;
          startYear = getUTCFullYear periodStart;
          endMonth = getUTCMonth periodEnd + 1;
          endYear = getUTCFullYear periodEnd;
          prevDate = Date_UTC startYear (startMonth - 2) 1 0 0 0;
          months0 = set_add (month_key (getUTCFullYear prevDate) (getUTCMonth prevDate + 1)) [];
          months1 =
            (if periodType = Daily \<or> periodType = Weekly \<or> periodType = Monthly
             then let months = set_add (month_key startYear startMonth) months0
                  in if periodType = Weekly \<and> startMonth \<noteq> endMonth
                     then set_add (month_key endYear endMonth) months
                     else months
             else yearly_loop periodEnd (Date_UTC startYear 0 1 0 0 0)
                    (set_add (month_key (startYear - 1) 12) months0));
          months2 = new_Set (filter (keep_month now) months1)
      in new_Set (sort months2))"

section \<open>Fetching the archives\<close>

text \<open>
  A game of the archive, with the fields \<^verbatim>\<open>getStats\<close> reads: \<^verbatim>\<open>end_time\<close> in seconds since
  the epoch, \<^verbatim>\<open>time_class\<close>, and for each side \<^verbatim>\<open>username\<close> and \<^verbatim>\<open>rating\<close>.
\<close>

record player =
  username :: string
  rating :: int

record game =
  end_time :: int
  time_class :: string
  white :: player
  black :: player

text \<open>
  What one HTTP request can come to: \<^verbatim>\<open>fetch\<close> rejects (a network error), or there is a
  response with its \<^verbatim>\<open>ok\<close> flag and a body. On a body that is not JSON \<^verbatim>\<open>res.json()\<close>
  throws, and on the body \<^verbatim>\<open>null\<close> the access \<^verbatim>\<open>data.games\<close> throws (\<open>Malformed\<close>); otherwise
  there is a value \<^verbatim>\<open>data.games\<close>. That value is falsy (\<open>None\<close>: the field is missing, or is
  \<^verbatim>\<open>null\<close>, \<^verbatim>\<open>false\<close>, 0 or the empty string), or it is an array of game records (\<open>Games\<close>),
  or it is truthy and cannot be iterated (\<open>NotIterable\<close>: an object such as \<^verbatim>\<open>{}\<close>, a number,
  \<^verbatim>\<open>true\<close>). The elements of an array are game records: a non-empty string and an array of
  anything else are not modelled. The world is a function from the URL requested to the
  outcome.
\<close>

datatype games_value = Games "game list" | NotIterable

datatype payload = Malformed | Data "games_value option"

datatype fetch_result = Rejected | Response bool payload

datatype error = TypeError

definition archive_url :: "string \<Rightarrow> string \<Rightarrow> string \<Rightarrow> string" where
  "archive_url uname year month =
     ''https://api.chess.com/pub/player/'' @ uname @ ''/games/'' @ year @ ''/'' @ padStart2 month"

text \<open>
  Every failure inside the \<^verbatim>\<open>try\<close> block ends in \<^verbatim>\<open>return []\<close>; otherwise the function
  returns \<^verbatim>\<open>data.games || []\<close>, that is \<^verbatim>\<open>data.games\<close> as it is when it is truthy.
\<close>

definition fetchGamesForMonth ::
    "(string \<Rightarrow> fetch_result) \<Rightarrow> string \<Rightarrow> string \<Rightarrow> string \<Rightarrow> games_value" where
  "fetchGamesForMonth world uname year month =
     (case world (archive_url uname year month) of
        Rejected \<Rightarrow> Games []
      | Response ok body \<Rightarrow>
          if \<not> ok then Games []
          else (case body of
                  Malformed \<Rightarrow> Games []
                | Data None \<Rightarrow> Games []
                | Data (Some games) \<Rightarrow> games))"

text \<open>
  The loop over the months: each key is split at \<^verbatim>\<open>'-'\<close> into year and month, and the games
  fetched are pushed onto \<open>allGames\<close> by \<^verbatim>\<open>allGames.push(...games)\<close>. The loop is outside
  the \<^verbatim>\<open>try\<close> block of \<open>fetchGamesForMonth\<close>: spreading a value that cannot be iterated
  throws a TypeError that leaves \<open>getStats\<close>, and so would \<^verbatim>\<open>month.toString()\<close> for a key
  without a second piece, which leaves \<open>month\<close> undefined.
\<close>

fun fetch_loop ::
    "(string \<Rightarrow> fetch_result) \<Rightarrow> string \<Rightarrow> string list \<Rightarrow> game list \<Rightarrow> error + game list" where
  "fetch_loop world uname [] allGames = Inr allGames"
| "fetch_loop world uname (monthStr # rest) allGames =
     (case split_on CHR ''-'' monthStr of
        year # month # _ \<Rightarrow>
          (case fetchGamesForMonth world uname year month of
             Games games \<Rightarrow> fetch_loop world uname rest (allGames @ games)
           | NotIterable \<Rightarrow> Inl TypeError)
      | _ \<Rightarrow> Inl TypeError)"

section \<open>The statistics\<close>

datatype mode = Rapid | Blitz | Bullet

fun mode_name :: "mode \<Rightarrow> string" where
  "mode_name Rapid = ''rapid''"
| "mode_name Blitz = ''blitz''"
| "mode_name Bullet = ''bullet''"

definition modes :: "mode list" where
  "modes = [Rapid, Blitz, Bullet]"

text \<open>
  The result of \<^verbatim>\<open>getStats\<close>. The three objects keyed by mode are functions on \<^typ>\<open>mode\<close>;
  a rating that is \<^verbatim>\<open>null\<close> is \<open>None\<close>.
\<close>

record stats_result =
  stats :: "mode \<Rightarrow> nat"
  startRatings :: "mode \<Rightarrow> int option"
  endRatings :: "mode \<Rightarrow> int option"
  gamesInPeriod :: "game list"

text \<open>
  The expression \<^verbatim>\<open>g.white.username.toLowerCase() === username.toLowerCase() ?
  g.white.rating : g.black.rating\<close>, which \<^verbatim>\<open>getStats\<close> writes out three times.
\<close>

definition subject_rating :: "(string \<Rightarrow> string) \<Rightarrow> string \<Rightarrow> game \<Rightarrow> int" where
  "subject_rating toLowerCase uname g =
     (if toLowerCase (username (white g)) = toLowerCase uname
      then rating (white g)
      else rating (black g))"

text \<open>
  \<^verbatim>\<open>new Date(v)\<close> for a number \<open>v\<close>: the time value \<open>v\<close> when it is in the range of
  \<^verbatim>\<open>TimeClip\<close>, and an Invalid Date (\<open>None\<close>) otherwise. A comparison with an Invalid Date
  is false.
\<close>

definition new_Date :: "int \<Rightarrow> int option" where
  "new_Date v = (if - 8640000000000000 \<le> v \<and> v \<le> 8640000000000000 then Some v else None)"

definition date_lt :: "int option \<Rightarrow> int \<Rightarrow> bool" where
  "date_lt d t = (case d of None \<Rightarrow> False | Some v \<Rightarrow> v < t)"

text \<open>
  The test of the filter for the period's games. \<open>periodStart\<close> and \<open>periodEnd\<close> are the time
  values of valid dates, so an end time outside the range of \<^verbatim>\<open>TimeClip\<close> is outside the
  period as a number too, and the test needs no case for an Invalid Date (lemma
  \<open>in_period_new_Date\<close>).
\<close>

definition in_period :: "int \<Rightarrow> int \<Rightarrow> game \<Rightarrow> bool" where
  "in_period periodStart periodEnd g =
     (let gDate = end_time g * 1000 in gDate \<ge> periodStart \<and> gDate \<le> periodEnd)"

text \<open>\<^verbatim>\<open>xs.pop()\<close> as a value: the last element, or \<^verbatim>\<open>undefined\<close> when there is none.\<close>

definition pop :: "'a list \<Rightarrow> 'a option" where
  "pop xs = (if xs = [] then None else Some (last xs))"

text \<open>The body of the first loop over the modes: the last game before the period.\<close>

definition start_step ::
    "(string \<Rightarrow> string) \<Rightarrow> game list \<Rightarrow> int \<Rightarrow> string \<Rightarrow> (mode \<Rightarrow> int option) \<Rightarrow> mode
       \<Rightarrow> (mode \<Rightarrow> int option)" where
  "start_step toLowerCase allGames periodStart uname startR m =
     (case pop (filter (\<lambda>g. time_class g = mode_name m
                            \<and> date_lt (new_Date (end_time g * 1000)) periodStart)
                  allGames) of
        None \<Rightarrow> startR
      | Some lastBefore \<Rightarrow> startR(m := Some (subject_rating toLowerCase uname lastBefore)))"

text \<open>The body of the second loop: the count, the end rating and the start rating's fallback.\<close>

definition count_step ::
    "(string \<Rightarrow> string) \<Rightarrow> game list \<Rightarrow> string \<Rightarrow>
     (mode \<Rightarrow> nat) \<times> (mode \<Rightarrow> int option) \<times> (mode \<Rightarrow> int option) \<Rightarrow> mode \<Rightarrow>
     (mode \<Rightarrow> nat) \<times> (mode \<Rightarrow> int option) \<times> (mode \<Rightarrow> int option)" where
  "count_step toLowerCase inPeriod uname acc m =
     (case acc of (st, startR, endR) \<Rightarrow>
        let modeGames = filter (\<lambda>g. time_class g = mode_name m) inPeriod;
            st' = st(m := length modeGames);
            endR' = (if modeGames \<noteq> []
                     then endR(m := Some (subject_rating toLowerCase uname (last modeGames)))
                     else endR);
            startR' = (if startR m = None
                       then (case modeGames of
                               [] \<Rightarrow> startR
                             | firstInPeriod # _ \<Rightarrow>
                                 startR(m := Some (subject_rating toLowerCase uname firstInPeriod)))
                       else startR)
        in (st', startR', endR'))"

text \<open>
  The part of \<^verbatim>\<open>getStats\<close> after the fetch. \<open>fetched\<close> is \<open>allGames\<close> as the fetch loop
  left it; the period's games are filtered from it into a new array before
  \<^verbatim>\<open>allGames.sort\<close> reorders \<open>allGames\<close> in place. The sort is stable and compares
  \<^verbatim>\<open>end_time\<close>.
\<close>

definition aggregate ::
    "(string \<Rightarrow> string) \<Rightarrow> string \<Rightarrow> game list \<Rightarrow> int \<Rightarrow> int \<Rightarrow> stats_result" where
  "aggregate toLowerCase uname fetched periodStart periodEnd =
     (let inPeriod = filter (in_period periodStart periodEnd) fetched;
          allGames = sort_key end_time fetched;
          startR = foldl (start_step toLowerCase allGames periodStart uname) (\<lambda>_. None) modes
      in case foldl (count_step toLowerCase inPeriod uname) ((\<lambda>_. 0), startR, (\<lambda>_. None))
                modes of
           (st, startR', endR) \<Rightarrow>
             \<lparr>stats = st, startRatings = startR', endRatings = endR, gamesInPeriod = inPeriod\<rparr>)"

text \<open>
  \<^verbatim>\<open>getStats\<close>, with what it takes from outside as parameters: \<open>toLowerCase\<close>, the case
  mapping of the engine; \<open>world\<close>, what the requests come to; and \<open>now\<close>, the time value of its
  \<^verbatim>\<open>new Date()\<close>. A TypeError thrown in the fetch loop leaves the function.
\<close>

definition getStats ::
    "(string \<Rightarrow> string) \<Rightarrow> (string \<Rightarrow> fetch_result) \<Rightarrow> int \<Rightarrow> string \<Rightarrow> int \<Rightarrow> int
       \<Rightarrow> period_type \<Rightarrow> error + stats_result" where
  "getStats toLowerCase world now uname periodStart periodEnd periodType =
     (case fetch_loop world uname (monthsToFetch periodType periodStart periodEnd now) [] of
        Inl e \<Rightarrow> Inl e
      | Inr fetched \<Rightarrow> Inr (aggregate toLowerCase uname fetched periodStart periodEnd))"

section \<open>The period of a command\<close>

text \<open>The window \<^verbatim>\<open>handleStats\<close> computes from the clock \<open>now\<close>.\<close>

definition period_window :: "period_type \<Rightarrow> int \<Rightarrow> int \<times> int" where
  "period_window periodType now =
     (case periodType of
        Daily \<Rightarrow>
          (Date_UTC (getUTCFullYear now) (getUTCMonth now) (getUTCDate now) 0 0 0,
           Date_UTC (getUTCFullYear now) (getUTCMonth now) (getUTCDate now) 23 59 59)
      | Weekly \<Rightarrow>
          (let day = getUTCDay now;
               diff = (if day = 0 then 6 else day - 1);
               start = setUTCDate now (getUTCDate now - diff)
           in (Date_UTC (getUTCFullYear start) (getUTCMonth start) (getUTCDate start) 0 0 0,
               Date_UTC (getUTCFullYear now) (getUTCMonth now) (getUTCDate now) 23 59 59))
      | Monthly \<Rightarrow>
          (Date_UTC (getUTCFullYear now) (getUTCMonth now) 1 0 0 0,
           Date_UTC (getUTCFullYear now) (getUTCMonth now + 1) 0 23 59 59)
      | Yearly \<Rightarrow>
          (Date_UTC (getUTCFullYear now) 0 1 0 0 0,
           Date_UTC (getUTCFullYear now) 11 31 23 59 59))"

section \<open>Notions for stating the properties\<close>

text \<open>The keys of the months: a year, a hyphen and a month from 1 to 12.\<close>

definition is_month_key :: "string \<Rightarrow> bool" where
  "is_month_key k = (\<exists>y m. k = month_key y m \<and> 1 \<le> m \<and> m \<le> 12)"

text \<open>
  The list before the filter, and what \<open>monthsToFetch\<close> is in terms of it: the filter keeps
  a list without duplicates, so both \<open>new_Set\<close> leave their argument as it is.
\<close>

definition months_before_filter :: "period_type \<Rightarrow> int \<Rightarrow> int \<Rightarrow> string list" where
  "months_before_filter periodType periodStart periodEnd =
     (let startMonth = getUTCMonth periodStart + 1;
          startYear = getUTCFullYear periodStart;
          endMonth = getUTCMonth periodEnd + 1;
          endYear = getUTCFullYear periodEnd;
          prevDate = Date_UTC startYear (startMonth - 2) 1 0 0 0;
          months0 = set_add (month_key (getUTCFullYear prevDate) (getUTCMonth prevDate + 1)) []
      in if periodType = Daily \<or> periodType = Weekly \<or> periodType = Monthly
         then let months = set_add (month_key startYear startMonth) months0
              in if periodType = Weekly \<and> startMonth \<noteq> endMonth
                 then set_add (month_key endYear endMonth) months
                 else months
         else yearly_loop periodEnd (Date_UTC startYear 0 1 0 0 0)
                (set_add (month_key (startYear - 1) 12) months0))"

text \<open>
  What \<open>fetchGamesForMonth\<close> returns for a month key; whether that value can be spread; and
  the games the key contributes to \<open>allGames\<close>.
\<close>

definition bucket_value :: "(string \<Rightarrow> fetch_result) \<Rightarrow> string \<Rightarrow> string \<Rightarrow> games_value" where
  "bucket_value world uname monthStr =
     (case split_on CHR ''-'' monthStr of
        year # month # _ \<Rightarrow> fetchGamesForMonth world uname year month
      | _ \<Rightarrow> Games [])"

definition bucket_spreads :: "(string \<Rightarrow> fetch_result) \<Rightarrow> string \<Rightarrow> string \<Rightarrow> bool" where
  "bucket_spreads world uname monthStr = (bucket_value world uname monthStr \<noteq> NotIterable)"

definition bucket_games :: "(string \<Rightarrow> fetch_result) \<Rightarrow> string \<Rightarrow> string \<Rightarrow> game list" where
  "bucket_games world uname monthStr =
     (case bucket_value world uname monthStr of Games games \<Rightarrow> games | NotIterable \<Rightarrow> [])"

text \<open>All the games fetched, in the order of the fetch.\<close>

definition fetched_games ::
    "(string \<Rightarrow> fetch_result) \<Rightarrow> int \<Rightarrow> string \<Rightarrow> int \<Rightarrow> int \<Rightarrow> period_type \<Rightarrow> game list" where
  "fetched_games world now uname periodStart periodEnd periodType =
     concat (map (bucket_games world uname) (monthsToFetch periodType periodStart periodEnd now))"

text \<open>\<open>modeGames\<close> of the second loop, and the games the first loop filters from \<open>allGames\<close>.\<close>

definition mode_games :: "int \<Rightarrow> int \<Rightarrow> game list \<Rightarrow> mode \<Rightarrow> game list" where
  "mode_games periodStart periodEnd fetched c =
     filter (\<lambda>g. time_class g = mode_name c) (filter (in_period periodStart periodEnd) fetched)"

definition games_before :: "int \<Rightarrow> game list \<Rightarrow> mode \<Rightarrow> game list" where
  "games_before periodStart allGames c =
     filter (\<lambda>g. time_class g = mode_name c \<and> date_lt (new_Date (end_time g * 1000)) periodStart)
       allGames"

text \<open>A game that names neither side as the subject.\<close>

definition names_neither :: "(string \<Rightarrow> string) \<Rightarrow> string \<Rightarrow> game \<Rightarrow> bool" where
  "names_neither toLowerCase uname g =
     (toLowerCase (username (white g)) \<noteq> toLowerCase uname
      \<and> toLowerCase (username (black g)) \<noteq> toLowerCase uname)"

text \<open>
  A fetch fails when \<^verbatim>\<open>fetch\<close> rejects (a network error), when the status is not a
  success, or when the body is malformed. A month's fetch is that of its key's URL.
\<close>

definition fetch_failed :: "fetch_result \<Rightarrow> bool" where
  "fetch_failed res =
     (case res of Rejected \<Rightarrow> True | Response ok body \<Rightarrow> \<not> ok \<or> body = Malformed)"

definition bucket_failed :: "(string \<Rightarrow> fetch_result) \<Rightarrow> string \<Rightarrow> string \<Rightarrow> bool" where
  "bucket_failed world uname monthStr =
     (case split_on CHR ''-'' monthStr of
        year # month # _ \<Rightarrow> fetch_failed (world (archive_url uname year month))
      | _ \<Rightarrow> False)"

text \<open>
  The calendar month immediately before the month of a time value, as a year and a month
  from 1 to 12 (\<open>getUTCMonth\<close> counts from 0, so it is the number of the month before), and
  its key.
\<close>

definition prev_month :: "int \<Rightarrow> int \<times> int" where
  "prev_month t =
     (if getUTCMonth t = 0 then (getUTCFullYear t - 1, 12)
      else (getUTCFullYear t, getUTCMonth t))"

definition prev_month_key :: "int \<Rightarrow> string" where
  "prev_month_key t = month_key (fst (prev_month t)) (snd (prev_month t))"

section \<open>Examples\<close>

text \<open>
  The clock reads Friday 2025-10-03 12:00:00 UTC. The week began on Monday 2025-09-29; the
  subject \<open>alice\<close> played one blitz game on 2025-09-30 (as White, rated 1500 after it) and
  one on 2025-10-02 (as Black, rated 1520 after it), and none before. The archive of August
  answers 404.
\<close>

definition week_now :: int where
  "week_now = 1759492800000"

definition week_start :: int where
  "week_start = 1759104000000"

definition week_end :: int where
  "week_end = 1759535999000"

definition game_sep30 :: game where
  "game_sep30 =
     \<lparr>end_time = 1759226400, time_class = ''blitz'',
      white = \<lparr>username = ''alice'', rating = 1500\<rparr>,
      black = \<lparr>username = ''bob'', rating = 1480\<rparr>\<rparr>"

definition game_oct2 :: game where
  "game_oct2 =
     \<lparr>end_time = 1759399200, time_class = ''blitz'',
      white = \<lparr>username = ''carol'', rating = 1490\<rparr>,
      black = \<lparr>username = ''Alice'', rating = 1520\<rparr>\<rparr>"

definition week_world :: "string \<Rightarrow> fetch_result" where
  "week_world url =
     (if url = ''https://api.chess.com/pub/player/alice/games/2025/09''
      then Response True (Data (Some (Games [game_sep30])))
      else if url = ''https://api.chess.com/pub/player/alice/games/2025/10''
      then Response True (Data (Some (Games [game_oct2])))
      else Response False Malformed)"

text \<open>
  The archive of \<open>dave\<close> for October 2025 holds the game of 2025-10-02 between \<open>carol\<close>
  and \<open>Alice\<close>.
\<close>

definition stranger_world :: "string \<Rightarrow> fetch_result" where
  "stranger_world url =
     (if url = ''https://api.chess.com/pub/player/dave/games/2025/10''
      then Response True (Data (Some (Games [game_oct2])))
      else Response False Malformed)"

text \<open>
  The archive of \<open>dave\<close> for September 2025 holds a blitz game of 2025-09-20 between \<open>carol\<close>
  and \<open>Alice\<close>, and that for October a rapid game of 2025-10-01 between \<open>erin\<close> and \<open>frank\<close>
  and the blitz game of 2025-10-02.
\<close>

definition game_sep20 :: game where
  "game_sep20 =
     \<lparr>end_time = 1758362400, time_class = ''blitz'',
      white = \<lparr>username = ''carol'', rating = 1400\<rparr>,
      black = \<lparr>username = ''Alice'', rating = 1450\<rparr>\<rparr>"

definition game_oct1 :: game where
  "game_oct1 =
     \<lparr>end_time = 1759312800, time_class = ''rapid'',
      white = \<lparr>username = ''erin'', rating = 1300\<rparr>,
      black = \<lparr>username = ''frank'', rating = 1350\<rparr>\<rparr>"

definition dave_world :: "string \<Rightarrow> fetch_result" where
  "dave_world url =
     (if url = ''https://api.chess.com/pub/player/dave/games/2025/09''
      then Response True (Data (Some (Games [game_sep20])))
      else if url = ''https://api.chess.com/pub/player/dave/games/2025/10''
      then Response True (Data (Some (Games [game_oct1, game_oct2])))
      else Response False Malformed)"

text \<open>
  The week of \<open>alice\<close> again, but the archive of October answers 200 with the body
  \<^verbatim>\<open>{"games": {}}\<close>.
\<close>

definition object_world :: "string \<Rightarrow> fetch_result" where
  "object_world url =
     (if url = ''https://api.chess.com/pub/player/alice/games/2025/09''
      then Response True (Data (Some (Games [game_sep30])))
      else if url = ''https://api.chess.com/pub/player/alice/games/2025/10''
      then Response True (Data (Some NotIterable))
      else Response False Malformed)"

text \<open>No request gets through.\<close>

definition down_world :: "string \<Rightarrow> fetch_result" where
  "down_world url = Rejected"

section \<open>Properties of the strings\<close>

lemma split_on_not_Nil: "split_on c s \<noteq> []"
  by (induction s) (auto split: list.splits)

lemma split_on_no_sep: "c \<notin> set a \<Longrightarrow> split_on c a = [a]"
  by (induction a) auto

lemma split_on_append: "c \<notin> set a \<Longrightarrow> split_on c (a @ c # b) = a # split_on c b"
  by (induction a) auto

lemma split_on_two: "\<exists>year month rest. split_on c (a @ c # b) = year # month # rest"
proof (induction a)
  case Nil
  obtain w ws where "split_on c b = w # ws"
    using split_on_not_Nil [of c b] by (cases "split_on c b") auto
  then show ?case by simp
next
  case (Cons x a)
  then show ?case by auto
qed

lemma digit_cases:
  fixes n :: nat
  assumes "n < 10"
  shows "n \<in> {0, 1, 2, 3, 4, 5, 6, 7, 8, 9}"
proof -
  have s: "a \<le> n \<Longrightarrow> n = a \<or> a + 1 \<le> n" for a by linarith
  show ?thesis
    using assms s [of 0] s [of 1] s [of 2] s [of 3] s [of 4] s [of 5] s [of 6] s [of 7]
      s [of 8] s [of 9]
    by auto
qed

lemma digit_value_digit_char:
  assumes "n < 10"
  shows "digit_value (digit_char n) = Some (int n)"
  using digit_cases [OF assms]
  by (elim insertE emptyE; simp add: digit_value_def digit_char_def)

lemma digit_char_not_dash:
  assumes "n < 10"
  shows "digit_char n \<noteq> CHR ''-''"
  using digit_cases [OF assms] by (elim insertE emptyE; simp add: digit_char_def)

lemma show_nat_no_dash: "CHR ''-'' \<notin> set (show_nat n)"
proof (induction n rule: show_nat.induct)
  case (1 n)
  show ?case
  proof (cases "n < 10")
    case True
    then show ?thesis using digit_char_not_dash [of n] by (simp add: show_nat.simps [of n])
  next
    case False
    then show ?thesis
      using "1.IH" digit_char_not_dash [of "n mod 10"] by (simp add: show_nat.simps [of n])
  qed
qed

lemma show_nat_not_Nil: "show_nat n \<noteq> []"
  by (simp add: show_nat.simps [of n])

lemma parse_digits_snoc:
  "parse_digits (xs @ [c]) acc =
     (case parse_digits xs acc of
        None \<Rightarrow> None
      | Some a \<Rightarrow> (case digit_value c of None \<Rightarrow> None | Some v \<Rightarrow> Some (10 * a + v)))"
  by (induction xs arbitrary: acc) (auto split: option.splits)

lemma parse_digits_show_nat: "parse_digits (show_nat n) 0 = Some (int n)"
proof (induction n rule: show_nat.induct)
  case (1 n)
  show ?case
  proof (cases "n < 10")
    case True
    then show ?thesis by (simp add: show_nat.simps [of n] digit_value_digit_char)
  next
    case False
    then have "parse_digits (show_nat (n div 10)) 0 = Some (int (n div 10))" by (rule "1.IH")
    with False show ?thesis
      by (simp add: show_nat.simps [of n] parse_digits_snoc digit_value_digit_char zdiv_int zmod_int)
  qed
qed

lemma js_Number_show_nat: "js_Number (show_nat n) = Some (int n)"
  by (simp add: js_Number_def show_nat_not_Nil parse_digits_show_nat)

section \<open>Properties of the months to fetch\<close>

lemma split_month_key_nonneg:
  assumes "0 \<le> y" and "0 \<le> m"
  shows "split_on CHR ''-'' (month_key y m) = [show_nat (nat y), show_nat (nat m)]"
  using assms
  by (simp add: month_key_def js_String_def split_on_append split_on_no_sep show_nat_no_dash)

lemma split_month_key_neg:
  assumes "y < 0" and "0 \<le> m"
  shows "split_on CHR ''-'' (month_key y m) = [[], show_nat (nat (- y)), show_nat (nat m)]"
  using assms
  by (simp add: month_key_def js_String_def split_on_append split_on_no_sep show_nat_no_dash)

lemma split_month_key_two:
  "\<exists>year month rest. split_on CHR ''-'' (month_key y m) = year # month # rest"
  unfolding month_key_def using split_on_two [of "CHR ''-''" "js_String y" "js_String m"] by simp

lemma js_Number_Nil: "js_Number [] = Some 0"
  by (simp add: js_Number_def)

lemma keep_month_key_nonneg:
  assumes "0 \<le> y" and "0 \<le> m"
  shows "keep_month now (month_key y m) \<longleftrightarrow>
    \<not> y > getUTCFullYear now \<and> \<not> (y = getUTCFullYear now \<and> m > getUTCMonth now + 1)"
  using assms
  by (simp add: keep_month_def split_month_key_nonneg js_Number_show_nat elem_def js_gt_def)

lemma keep_month_key_neg:
  assumes "y < 0" and "0 \<le> m"
  shows "keep_month now (month_key y m) \<longleftrightarrow>
    \<not> 0 > getUTCFullYear now \<and> \<not> (0 = getUTCFullYear now \<and> - y > getUTCMonth now + 1)"
  using assms
  by (simp add: keep_month_def split_month_key_neg js_Number_show_nat js_Number_Nil elem_def
      js_gt_def)

text \<open>A month that passes the filter is not after the month of \<open>now\<close>.\<close>

lemma keep_month_not_after:
  assumes "keep_month now (month_key y m)" and "0 \<le> m"
  shows "y < getUTCFullYear now \<or> (y = getUTCFullYear now \<and> m \<le> getUTCMonth now + 1)"
proof (cases "0 \<le> y")
  case True
  with assms show ?thesis by (auto simp: keep_month_key_nonneg)
next
  case False
  with assms show ?thesis by (auto simp: keep_month_key_neg)
qed

lemma set_set_add: "set (set_add k s) = insert k (set s)"
  by (auto simp: set_add_def)

lemma distinct_set_add: "distinct s \<Longrightarrow> distinct (set_add k s)"
  by (simp add: set_add_def)

lemma set_add_fold_set: "set (foldl (\<lambda>s k. set_add k s) acc xs) = set acc \<union> set xs"
  by (induction xs arbitrary: acc) (auto simp: set_set_add)

lemma set_add_fold_distinct: "distinct acc \<Longrightarrow> distinct (foldl (\<lambda>s k. set_add k s) acc xs)"
  by (induction xs arbitrary: acc) (auto simp: distinct_set_add)

lemma set_add_fold_id: "distinct (acc @ xs) \<Longrightarrow> foldl (\<lambda>s k. set_add k s) acc xs = acc @ xs"
proof (induction xs arbitrary: acc)
  case Nil
  show ?case by simp
next
  case (Cons x xs)
  from Cons.prems have "set_add x acc = acc @ [x]" by (simp add: set_add_def)
  moreover from Cons.prems have "distinct ((acc @ [x]) @ xs)" by simp
  ultimately show ?case using Cons.IH [of "acc @ [x]"] by simp
qed

lemma set_new_Set: "set (new_Set xs) = set xs"
  by (simp add: new_Set_def set_add_fold_set)

lemma distinct_new_Set: "distinct (new_Set xs)"
  by (simp add: new_Set_def set_add_fold_distinct)

lemma new_Set_distinct_id: "distinct xs \<Longrightarrow> new_Set xs = xs"
  using set_add_fold_id [of "[]" xs] by (simp add: new_Set_def)

lemma is_month_keyI: "1 \<le> m \<Longrightarrow> m \<le> 12 \<Longrightarrow> is_month_key (month_key y m)"
  unfolding is_month_key_def by blast

lemma is_month_key_month: "is_month_key (month_key y (getUTCMonth t + 1))"
  using MonthFromTime_range [of t] by (intro is_month_keyI) (simp_all add: getUTCMonth_def)

lemma is_month_key_12: "is_month_key (month_key y 12)"
  by (intro is_month_keyI) simp_all

lemma yearly_loop_keys:
  "\<forall>k\<in>set months. is_month_key k \<Longrightarrow>
     \<forall>k\<in>set (yearly_loop periodEnd iter months). is_month_key k"
proof (induction periodEnd iter months rule: yearly_loop.induct)
  case (1 periodEnd iter months)
  show ?case
  proof (cases "iter \<le> periodEnd")
    case True
    have "\<forall>k\<in>set (set_add (month_key (getUTCFullYear iter) (getUTCMonth iter + 1)) months).
        is_month_key k"
      using "1.prems" by (simp add: set_set_add is_month_key_month)
    with "1.IH" [OF True] True show ?thesis
      by (simp add: yearly_loop.simps [of periodEnd iter months])
  next
    case False
    with "1.prems" show ?thesis by (simp add: yearly_loop.simps [of periodEnd iter months])
  qed
qed

lemma yearly_loop_superset: "set months \<subseteq> set (yearly_loop periodEnd iter months)"
proof (induction periodEnd iter months rule: yearly_loop.induct)
  case (1 periodEnd iter months)
  show ?case
  proof (cases "iter \<le> periodEnd")
    case True
    with "1.IH" [OF True] show ?thesis
      by (auto simp: yearly_loop.simps [of periodEnd iter months] set_set_add)
  next
    case False
    then show ?thesis by (simp add: yearly_loop.simps [of periodEnd iter months])
  qed
qed

lemma monthsToFetch_eq:
  "monthsToFetch periodType periodStart periodEnd now =
     sort (new_Set (filter (keep_month now) (months_before_filter periodType periodStart periodEnd)))"
  unfolding monthsToFetch_def months_before_filter_def Let_def
  by (rule new_Set_distinct_id) (simp add: distinct_new_Set)

lemma set_monthsToFetch:
  "set (monthsToFetch periodType periodStart periodEnd now) =
     {k \<in> set (months_before_filter periodType periodStart periodEnd). keep_month now k}"
  by (auto simp: monthsToFetch_eq set_new_Set)

lemma distinct_monthsToFetch: "distinct (monthsToFetch periodType periodStart periodEnd now)"
  by (simp add: monthsToFetch_eq distinct_new_Set)

lemma sorted_monthsToFetch: "sorted (monthsToFetch periodType periodStart periodEnd now)"
  by (simp add: monthsToFetch_eq)

lemma months_before_filter_keys:
  "\<forall>k\<in>set (months_before_filter periodType periodStart periodEnd). is_month_key k"
proof -
  define months0 where "months0 = set_add (month_key
      (getUTCFullYear (Date_UTC (getUTCFullYear periodStart) (getUTCMonth periodStart + 1 - 2) 1 0 0 0))
      (getUTCMonth (Date_UTC (getUTCFullYear periodStart) (getUTCMonth periodStart + 1 - 2) 1 0 0 0) + 1)) []"
  have k0: "\<forall>k\<in>set months0. is_month_key k"
    by (simp add: months0_def set_set_add is_month_key_month)
  show ?thesis
  proof (cases "periodType = Yearly")
    case True
    have "\<forall>k\<in>set (set_add (month_key (getUTCFullYear periodStart - 1) 12) months0). is_month_key k"
      using k0 by (simp add: set_set_add is_month_key_12)
    then have "\<forall>k\<in>set (yearly_loop periodEnd (Date_UTC (getUTCFullYear periodStart) 0 1 0 0 0)
        (set_add (month_key (getUTCFullYear periodStart - 1) 12) months0)). is_month_key k"
      by (rule yearly_loop_keys)
    then show ?thesis
      by (simp add: months_before_filter_def Let_def True months0_def)
  next
    case False
    then have pt: "periodType = Daily \<or> periodType = Weekly \<or> periodType = Monthly"
      by (cases periodType) simp_all
    have "\<forall>k\<in>set (set_add (month_key (getUTCFullYear periodEnd) (getUTCMonth periodEnd + 1))
        (set_add (month_key (getUTCFullYear periodStart) (getUTCMonth periodStart + 1)) months0)).
        is_month_key k"
      using k0 by (simp add: set_set_add is_month_key_month)
    moreover have "\<forall>k\<in>set (set_add (month_key (getUTCFullYear periodStart)
        (getUTCMonth periodStart + 1)) months0). is_month_key k"
      using k0 by (simp add: set_set_add is_month_key_month)
    ultimately show ?thesis
      using pt by (simp add: months_before_filter_def Let_def months0_def)
  qed
qed

section \<open>Properties of the fetch and of the statistics\<close>

lemma fetch_loop_month_keys:
  "\<forall>k\<in>set months. is_month_key k \<Longrightarrow>
     fetch_loop world uname months allGames =
       (if \<forall>k\<in>set months. bucket_spreads world uname k
        then Inr (allGames @ concat (map (bucket_games world uname) months))
        else Inl TypeError)"
proof (induction months arbitrary: allGames)
  case Nil
  show ?case by simp
next
  case (Cons k months)
  from Cons.prems obtain y m where k: "k = month_key y m"
    by (auto simp: is_month_key_def)
  obtain year month rest where s: "split_on CHR ''-'' k = year # month # rest"
    using split_month_key_two [of y m] k by auto
  from Cons.prems have keys: "\<forall>k\<in>set months. is_month_key k" by simp
  show ?case
  proof (cases "fetchGamesForMonth world uname year month")
    case (Games games)
    then have "bucket_spreads world uname k" "bucket_games world uname k = games"
      by (simp_all add: bucket_spreads_def bucket_games_def bucket_value_def s)
    with Games show ?thesis
      by (simp add: s Cons.IH [OF keys])
  next
    case NotIterable
    then have "\<not> bucket_spreads world uname k"
      by (simp add: bucket_spreads_def bucket_value_def s)
    with NotIterable show ?thesis
      by (simp add: s)
  qed
qed

lemma monthsToFetch_keys:
  "\<forall>k\<in>set (monthsToFetch periodType periodStart periodEnd now). is_month_key k"
  using months_before_filter_keys [of periodType periodStart periodEnd]
  by (simp add: set_monthsToFetch)

lemma fetch_loop_monthsToFetch:
  "fetch_loop world uname (monthsToFetch periodType periodStart periodEnd now) [] =
     (if \<forall>k\<in>set (monthsToFetch periodType periodStart periodEnd now). bucket_spreads world uname k
      then Inr (fetched_games world now uname periodStart periodEnd periodType)
      else Inl TypeError)"
  using fetch_loop_month_keys [OF monthsToFetch_keys, of world uname _ _ _ _ "[]"]
  by (simp add: fetched_games_def)

text \<open>
  \<open>getStats\<close> returns the statistics of the games fetched when the value of every month can
  be spread, and throws the TypeError otherwise.
\<close>

lemma getStats_eq:
  "getStats toLowerCase world now uname periodStart periodEnd periodType =
     (if \<forall>k\<in>set (monthsToFetch periodType periodStart periodEnd now). bucket_spreads world uname k
      then Inr (aggregate toLowerCase uname
                  (fetched_games world now uname periodStart periodEnd periodType)
                  periodStart periodEnd)
      else Inl TypeError)"
  by (simp add: getStats_def fetch_loop_monthsToFetch)

lemma getStats_Inr:
  assumes "getStats toLowerCase world now uname periodStart periodEnd periodType = Inr r"
  shows "fetch_loop world uname (monthsToFetch periodType periodStart periodEnd now) [] =
      Inr (fetched_games world now uname periodStart periodEnd periodType)"
    and "r = aggregate toLowerCase uname
      (fetched_games world now uname periodStart periodEnd periodType) periodStart periodEnd"
  using assms by (simp_all add: getStats_eq fetch_loop_monthsToFetch split: if_splits)

lemma getStats_returns:
  assumes "\<forall>k\<in>set (monthsToFetch periodType periodStart periodEnd now).
    bucket_spreads world uname k"
  shows "getStats toLowerCase world now uname periodStart periodEnd periodType =
    Inr (aggregate toLowerCase uname
      (fetched_games world now uname periodStart periodEnd periodType) periodStart periodEnd)"
  using assms by (simp add: getStats_eq)

text \<open>
  For a period between valid dates the test of the filter is that of the code, which
  compares the date \<^verbatim>\<open>new Date(g.end_time * 1000)\<close>.
\<close>

lemma in_period_new_Date:
  assumes "- 8640000000000000 \<le> periodStart" and "periodEnd \<le> 8640000000000000"
  shows "in_period periodStart periodEnd g =
    (case new_Date (end_time g * 1000) of
       None \<Rightarrow> False
     | Some gDate \<Rightarrow> gDate \<ge> periodStart \<and> gDate \<le> periodEnd)"
  using assms by (auto simp: in_period_def new_Date_def Let_def)

lemma aggregate_gamesInPeriod:
  "gamesInPeriod (aggregate lc u fetched ps pe) = filter (in_period ps pe) fetched"
  by (simp add: aggregate_def Let_def split: prod.splits)

lemma aggregate_stats:
  "stats (aggregate lc u fetched ps pe) c = length (mode_games ps pe fetched c)"
  by (cases c)
    (simp_all add: aggregate_def modes_def count_step_def mode_games_def Let_def
      split: prod.splits)

lemma aggregate_endRatings:
  "endRatings (aggregate lc u fetched ps pe) c =
     (if mode_games ps pe fetched c = [] then None
      else Some (subject_rating lc u (last (mode_games ps pe fetched c))))"
  by (cases c)
    (simp_all add: aggregate_def modes_def count_step_def mode_games_def Let_def
      split: prod.splits)

lemma aggregate_startRatings:
  "startRatings (aggregate lc u fetched ps pe) c =
     (case pop (games_before ps (sort_key end_time fetched) c) of
        Some lastBefore \<Rightarrow> Some (subject_rating lc u lastBefore)
      | None \<Rightarrow>
          (case mode_games ps pe fetched c of
             [] \<Rightarrow> None
           | firstInPeriod # _ \<Rightarrow> Some (subject_rating lc u firstInPeriod)))"
  by (cases c)
    (simp_all add: aggregate_def modes_def count_step_def start_step_def mode_games_def
      games_before_def Let_def split: prod.splits option.splits list.splits)

lemma sorted_map_le_last:
  "sorted (map f xs) \<Longrightarrow> x \<in> set xs \<Longrightarrow> f x \<le> f (last xs)" for f :: "'a \<Rightarrow> int"
  by (induction xs) auto

text \<open>
  The start rating where a game of the class precedes the period: the rating in one of
  those games that ends last.
\<close>

lemma start_rating_latest_before:
  assumes "games_before ps fetched c \<noteq> []"
  shows "\<exists>g\<in>set (games_before ps fetched c).
      (\<forall>h\<in>set (games_before ps fetched c). end_time h \<le> end_time g)
      \<and> startRatings (aggregate lc u fetched ps pe) c = Some (subject_rating lc u g)"
proof -
  let ?before = "games_before ps (sort_key end_time fetched) c"
  have eq: "?before = sort_key end_time (games_before ps fetched c)"
    by (simp add: games_before_def filter_sort)
  have s: "set ?before = set (games_before ps fetched c)"
    by (simp add: eq)
  with assms have ne: "?before \<noteq> []"
    by (metis set_empty)
  have "sorted (map end_time ?before)"
    by (simp add: eq)
  then have "\<forall>h\<in>set ?before. end_time h \<le> end_time (last ?before)"
    by (simp add: sorted_map_le_last)
  moreover have "last ?before \<in> set ?before" using ne by simp
  moreover have "startRatings (aggregate lc u fetched ps pe) c =
      Some (subject_rating lc u (last ?before))"
    using ne by (simp add: aggregate_startRatings pop_def)
  ultimately show ?thesis unfolding s by blast
qed

text \<open>
  The end rating, and the start rating's fallback, where the games were fetched in the order
  of their end times: then the last and the first game of the period are the last and the
  first by end time.
\<close>

lemma mode_games_chronological:
  assumes "sorted (map end_time fetched)"
  shows "sort_key end_time (mode_games ps pe fetched c) = mode_games ps pe fetched c"
proof -
  have "sorted (map end_time (mode_games ps pe fetched c))"
    unfolding mode_games_def using assms by (intro sorted_filter)
  then show ?thesis by (rule sort_key_id_if_sorted)
qed

text \<open>Where the white username does not match, the rating read is that of Black.\<close>

lemma subject_rating_black:
  "toLowerCase (username (white g)) \<noteq> toLowerCase uname \<Longrightarrow>
     subject_rating toLowerCase uname g = rating (black g)"
  by (simp add: subject_rating_def)

section \<open>The week of 2025-10-03\<close>

lemma week_window: "period_window Weekly week_now = (week_start, week_end)"
  by code_simp

lemma week_months:
  "monthsToFetch Weekly week_start week_end week_now = [''2025-10'', ''2025-8'', ''2025-9'']"
  by code_simp

lemma week_fetch:
  "fetch_loop week_world ''alice'' [''2025-10'', ''2025-8'', ''2025-9''] [] =
     Inr [game_oct2, game_sep30]"
  by code_simp

lemma week_getStats:
  "getStats ascii_toLowerCase week_world week_now ''alice'' week_start week_end Weekly =
     Inr (aggregate ascii_toLowerCase ''alice'' [game_oct2, game_sep30] week_start week_end)"
  by (simp only: getStats_def week_months week_fetch sum.case)

lemma week_mode_games:
  "mode_games week_start week_end [game_oct2, game_sep30] Blitz = [game_oct2, game_sep30]"
  by code_simp

lemma week_games_before:
  "games_before week_start (sort_key end_time [game_oct2, game_sep30]) Blitz = []"
  by code_simp

lemma week_ratings:
  "subject_rating ascii_toLowerCase ''alice'' game_oct2 = 1520"
  "subject_rating ascii_toLowerCase ''alice'' game_sep30 = 1500"
  by code_simp+

lemma week_chronological:
  "sort_key end_time (filter (\<lambda>g. time_class g = mode_name Blitz) [game_oct2, game_sep30]) =
     [game_sep30, game_oct2]"
  by code_simp

lemma week_in_period:
  "filter (in_period week_start week_end) [game_oct2, game_sep30] = [game_oct2, game_sep30]"
  by code_simp

lemma week_spreads:
  "\<forall>k\<in>set (monthsToFetch Weekly week_start week_end week_now). bucket_spreads week_world ''alice'' k"
  unfolding week_months by code_simp

lemma week_august_failed:
  "fetch_failed (week_world (archive_url ''alice'' ''2025'' ''8''))"
  "bucket_failed week_world ''alice'' ''2025-8''"
  "\<not> bucket_failed week_world ''alice'' ''2025-10''"
  "\<not> bucket_failed week_world ''alice'' ''2025-9''"
  by code_simp+

lemma week_bucket_games:
  "bucket_games week_world ''alice'' ''2025-10'' = [game_oct2]"
  "bucket_games week_world ''alice'' ''2025-9'' = [game_sep30]"
  by code_simp+

lemma object_getStats:
  "getStats toLowerCase object_world week_now ''alice'' week_start week_end Weekly = Inl TypeError"
proof -
  have "fetch_loop object_world ''alice'' [''2025-10'', ''2025-8'', ''2025-9''] [] = Inl TypeError"
    by code_simp
  then show ?thesis
    by (simp only: getStats_def week_months sum.case)
qed

lemma object_not_spread: "\<not> bucket_spreads object_world ''alice'' ''2025-10''"
  by code_simp

lemma object_october:
  "object_world (archive_url ''alice'' ''2025'' ''10'') = Response True (Data (Some NotIterable))"
  "fetchGamesForMonth object_world ''alice'' ''2025'' ''10'' = NotIterable"
  by code_simp+

section \<open>Records that name neither side as the subject\<close>

lemma stranger_fetch:
  "fetch_loop stranger_world ''dave'' [''2025-10'', ''2025-8'', ''2025-9''] [] = Inr [game_oct2]"
  by code_simp

lemma stranger_getStats:
  "getStats ascii_toLowerCase stranger_world week_now ''dave'' week_start week_end Weekly =
     Inr (aggregate ascii_toLowerCase ''dave'' [game_oct2] week_start week_end)"
  by (simp only: getStats_def week_months stranger_fetch sum.case)

lemma stranger_mode_games:
  "mode_games week_start week_end [game_oct2] Blitz = [game_oct2]"
  by code_simp

lemma stranger_names:
  "ascii_toLowerCase (username (white game_oct2)) \<noteq> ascii_toLowerCase ''dave''"
  "ascii_toLowerCase (username (black game_oct2)) \<noteq> ascii_toLowerCase ''dave''"
  by code_simp+

lemma stranger_black: "rating (black game_oct2) = 1520"
  by (simp add: game_oct2_def)

lemma dave_fetch:
  "fetch_loop dave_world ''dave'' [''2025-10'', ''2025-8'', ''2025-9''] [] =
     Inr [game_oct1, game_oct2, game_sep20]"
  by code_simp

lemma dave_getStats:
  "getStats ascii_toLowerCase dave_world week_now ''dave'' week_start week_end Weekly =
     Inr (aggregate ascii_toLowerCase ''dave'' [game_oct1, game_oct2, game_sep20]
            week_start week_end)"
  by (simp only: getStats_def week_months dave_fetch sum.case)

lemma dave_games:
  "games_before week_start (sort_key end_time [game_oct1, game_oct2, game_sep20]) Blitz =
     [game_sep20]"
  "games_before week_start (sort_key end_time [game_oct1, game_oct2, game_sep20]) Rapid = []"
  "mode_games week_start week_end [game_oct1, game_oct2, game_sep20] Blitz = [game_oct2]"
  "mode_games week_start week_end [game_oct1, game_oct2, game_sep20] Rapid = [game_oct1]"
  by code_simp+

lemma dave_names:
  "names_neither ascii_toLowerCase ''dave'' game_sep20"
  "names_neither ascii_toLowerCase ''dave'' game_oct1"
  "names_neither ascii_toLowerCase ''dave'' game_oct2"
  by code_simp+

lemma dave_black:
  "rating (black game_sep20) = 1450" "rating (black game_oct1) = 1350"
  "rating (black game_oct2) = 1520"
  by (simp_all add: game_sep20_def game_oct1_def game_oct2_def)

lemma dave_spreads:
  "\<forall>k\<in>set (monthsToFetch Weekly week_start week_end week_now). bucket_spreads dave_world ''dave'' k"
  unfolding week_months by code_simp

section \<open>Failing fetches\<close>

lemma fetch_failed_no_games:
  "fetch_failed (world (archive_url uname year month)) \<Longrightarrow>
     fetchGamesForMonth world uname year month = Games []"
  by (auto simp: fetch_failed_def fetchGamesForMonth_def split: fetch_result.splits)

lemma bucket_failed_value:
  "bucket_failed world uname k \<Longrightarrow> bucket_value world uname k = Games []"
  by (auto simp: bucket_failed_def bucket_value_def fetch_failed_no_games split: list.splits)

lemma bucket_failed_no_games: "bucket_failed world uname k \<Longrightarrow> bucket_games world uname k = []"
  by (simp add: bucket_games_def bucket_failed_value)

lemma bucket_failed_spreads: "bucket_failed world uname k \<Longrightarrow> bucket_spreads world uname k"
  by (simp add: bucket_spreads_def bucket_failed_value)

text \<open>The months whose fetch failed contribute nothing to the games fetched.\<close>

lemma concat_without_failed:
  "concat (map (bucket_games world uname) months) =
     concat (map (bucket_games world uname)
       (filter (\<lambda>k. \<not> bucket_failed world uname k) months))"
  by (induction months) (auto simp: bucket_failed_no_games)

lemma aggregate_no_games:
  "stats (aggregate lc uname [] periodStart periodEnd) c = 0"
  "startRatings (aggregate lc uname [] periodStart periodEnd) c = None"
  "endRatings (aggregate lc uname [] periodStart periodEnd) c = None"
  "gamesInPeriod (aggregate lc uname [] periodStart periodEnd) = []"
  by (simp_all add: aggregate_stats aggregate_startRatings aggregate_endRatings
      aggregate_gamesInPeriod mode_games_def games_before_def pop_def)

text \<open>
  Where every month fails, \<open>getStats\<close> returns the statistics of no games; and the games
  fetched are those of the months that did not fail, in their order.
\<close>

lemma bucket_failed_getStats:
  assumes "\<forall>k\<in>set (monthsToFetch periodType periodStart periodEnd now).
    bucket_failed world uname k"
  shows "getStats toLowerCase world now uname periodStart periodEnd periodType =
    Inr (aggregate toLowerCase uname [] periodStart periodEnd)"
proof -
  have "fetched_games world now uname periodStart periodEnd periodType = []"
    using assms by (simp add: fetched_games_def bucket_failed_no_games)
  moreover have "\<forall>k\<in>set (monthsToFetch periodType periodStart periodEnd now).
      bucket_spreads world uname k"
    using assms by (simp add: bucket_failed_spreads)
  ultimately show ?thesis by (simp add: getStats_eq)
qed

lemma fetched_games_without_failed:
  "fetched_games world now uname periodStart periodEnd periodType =
     concat (map (bucket_games world uname)
       (filter (\<lambda>k. \<not> bucket_failed world uname k)
          (monthsToFetch periodType periodStart periodEnd now)))"
  unfolding fetched_games_def by (rule concat_without_failed)

section \<open>Properties of the period\<close>

lemma Day_nonneg: "0 \<le> t \<Longrightarrow> 0 \<le> Day t"
  by (simp add: Day_def msPerDay_def)

lemma DayFromYear_1969: "DayFromYear 1969 = - 365"
  by (simp add: DayFromYear_def)

lemma YearFromDay_ge_1969: "- 365 \<le> d \<Longrightarrow> 1969 \<le> YearFromDay d"
  by (simp add: YearFromDay_iff DayFromYear_1969)

lemma YearFromTime_ge_1970: "0 \<le> t \<Longrightarrow> 1970 \<le> YearFromTime t"
  using Day_nonneg [of t] by (simp add: YearFromTime_def YearFromDay_iff DayFromYear_1970)

lemma TimeWithinDay_range: "0 \<le> TimeWithinDay t \<and> TimeWithinDay t < msPerDay"
  by (simp add: TimeWithinDay_def msPerDay_def)

text \<open>
  \<^verbatim>\<open>Date.UTC\<close> on the year, month and date of a time value, for a year that is not read as a
  year of the twentieth century: the day of the time value, at the time of day given.
\<close>

lemma Date_UTC_of_time:
  assumes "100 \<le> YearFromTime t"
  shows "Date_UTC (getUTCFullYear t) (getUTCMonth t) (getUTCDate t) h mi s =
    MakeDate (Day t) (MakeTime h mi s 0)"
  using assms
  by (simp add: Date_UTC_def getUTCFullYear_def getUTCMonth_def getUTCDate_def MakeDay_of_time)

lemma MakeDay_first_le_last:
  assumes "0 \<le> m" and "m \<le> 11"
  shows "MakeDay y m 1 \<le> MakeDay y (m + 1) 0"
proof -
  have "MakeDay y (m + 1) 0 = MakeDay y (m + 1) 1 - 1"
    by (simp add: MakeDay_def Let_def)
  with MakeDay_next_month [OF assms, of y 1] show ?thesis by simp
qed

lemma MakeDate_mono:
  "d \<le> d' \<Longrightarrow> 0 \<le> tm' \<Longrightarrow> MakeDate d 0 \<le> MakeDate d' tm'"
proof -
  assume "d \<le> d'" and "0 \<le> tm'"
  then have "d * msPerDay \<le> d' * msPerDay" by (simp add: msPerDay_def)
  with \<open>0 \<le> tm'\<close> show ?thesis by (simp add: MakeDate_def)
qed

lemma week_diff:
  "(if getUTCDay now = 0 then 6 else getUTCDay now - 1) = (Day now + 3) mod 7"
proof -
  define w where "w = (Day now + 4) mod 7"
  have r: "0 \<le> w" "w < 7" by (simp_all add: w_def)
  have "(Day now + 4 + 6) mod 7 = (Day now + 3 + 7 * 1) mod 7" by simp
  also have "\<dots> = (Day now + 3) mod 7" by (simp only: mod_mult_self2)
  finally have "(Day now + 3) mod 7 = (Day now + 4 + 6) mod 7" by (rule sym)
  also have "\<dots> = (w + 6) mod 7" unfolding w_def by (simp only: mod_add_left_eq)
  finally have e: "(Day now + 3) mod 7 = (w + 6) mod 7" .
  have "(w + 6) mod 7 = (if w = 0 then 6 else w - 1)"
  proof (cases "w = 0")
    case True
    then show ?thesis by simp
  next
    case False
    with r have "w + 6 = 7 * 1 + (w - 1)" "0 \<le> w - 1" "w - 1 < 7" by simp_all
    then have "(w + 6) mod 7 = w - 1" by (rule int_mod_pos_eq)
    with False show ?thesis by simp
  qed
  with e show ?thesis by (simp add: w_def getUTCDay_def WeekDay_def)
qed

lemma week_start_day:
  "Day (setUTCDate now (getUTCDate now - (Day now + 3) mod 7)) = Day now - (Day now + 3) mod 7"
  using TimeWithinDay_range [of now]
  by (simp add: setUTCDate_def MakeDay_of_time getUTCDate_def MakeDate_Day)

lemma period_window_weekly:
  assumes "0 \<le> now"
  shows "period_window Weekly now =
    (MakeDate (Day now - (Day now + 3) mod 7) 0, MakeDate (Day now) (MakeTime 23 59 59 0))"
proof -
  let ?start = "setUTCDate now (getUTCDate now - (Day now + 3) mod 7)"
  have "- 365 \<le> Day now - (Day now + 3) mod 7"
    using Day_nonneg [OF assms] by simp
  then have "1969 \<le> YearFromTime ?start"
    unfolding YearFromTime_def week_start_day by (rule YearFromDay_ge_1969)
  then have s: "Date_UTC (getUTCFullYear ?start) (getUTCMonth ?start) (getUTCDate ?start) 0 0 0 =
      MakeDate (Day now - (Day now + 3) mod 7) 0"
    by (simp add: Date_UTC_of_time week_start_day MakeTime_def)
  have e: "Date_UTC (getUTCFullYear now) (getUTCMonth now) (getUTCDate now) 23 59 59 =
      MakeDate (Day now) (MakeTime 23 59 59 0)"
    using YearFromTime_ge_1970 [OF assms] by (simp add: Date_UTC_of_time)
  show ?thesis
    by (simp only: period_window_def period_type.case Let_def week_diff s e)
qed

lemma period_window_ordered:
  assumes "0 \<le> now"
  shows "fst (period_window periodType now) \<le> snd (period_window periodType now)"
proof (cases periodType)
  case Daily
  have "Date_UTC (getUTCFullYear now) (getUTCMonth now) (getUTCDate now) 0 0 0
      \<le> Date_UTC (getUTCFullYear now) (getUTCMonth now) (getUTCDate now) 23 59 59"
    by (simp add: Date_UTC_def Let_def MakeDate_def MakeTime_def)
  then show ?thesis by (simp add: Daily period_window_def)
next
  case Weekly
  have "Day now - (Day now + 3) mod 7 \<le> Day now" by simp
  then have "MakeDate (Day now - (Day now + 3) mod 7) 0 \<le> MakeDate (Day now) (MakeTime 23 59 59 0)"
    by (rule MakeDate_mono) (simp add: MakeTime_def)
  then show ?thesis by (simp add: Weekly period_window_weekly [OF assms])
next
  case Monthly
  define yr where "yr = (if 0 \<le> getUTCFullYear now \<and> getUTCFullYear now \<le> 99
    then 1900 + getUTCFullYear now else getUTCFullYear now)"
  have "MakeDay yr (getUTCMonth now) 1 \<le> MakeDay yr (getUTCMonth now + 1) 0"
    using MonthFromTime_range [of now] by (intro MakeDay_first_le_last) (simp_all add: getUTCMonth_def)
  then have "MakeDate (MakeDay yr (getUTCMonth now) 1) 0
      \<le> MakeDate (MakeDay yr (getUTCMonth now + 1) 0) (MakeTime 23 59 59 0)"
    by (rule MakeDate_mono) (simp add: MakeTime_def)
  then show ?thesis by (simp add: Monthly period_window_def Date_UTC_def Let_def yr_def MakeTime_def)
next
  case Yearly
  define yr where "yr = (if 0 \<le> getUTCFullYear now \<and> getUTCFullYear now \<le> 99
    then 1900 + getUTCFullYear now else getUTCFullYear now)"
  have "MakeDay yr 0 1 \<le> MakeDay yr 11 31"
    by (simp add: MakeDay_def Let_def month_start_def)
  then have "MakeDate (MakeDay yr 0 1) 0 \<le> MakeDate (MakeDay yr 11 31) (MakeTime 23 59 59 0)"
    by (rule MakeDate_mono) (simp add: MakeTime_def)
  then show ?thesis by (simp add: Yearly period_window_def Date_UTC_def Let_def yr_def MakeTime_def)
qed

section \<open>The month before the period, and the months after the clock\<close>

lemma week_now_month: "getUTCFullYear week_now = 2025" "getUTCMonth week_now = 9"
  by code_simp+

lemma key_2025_10: "month_key 2025 10 = ''2025-10''"
  by code_simp

lemma prev_month_range: "1 \<le> snd (prev_month t) \<and> snd (prev_month t) \<le> 12"
  using MonthFromTime_range [of t] by (simp add: prev_month_def getUTCMonth_def)

lemma prevDate_key:
  assumes "100 \<le> getUTCFullYear periodStart"
  defines "prevDate \<equiv>
    Date_UTC (getUTCFullYear periodStart) (getUTCMonth periodStart + 1 - 2) 1 0 0 0"
  shows "month_key (getUTCFullYear prevDate) (getUTCMonth prevDate + 1) =
    prev_month_key periodStart"
proof -
  let ?y = "getUTCFullYear periodStart" and ?m = "getUTCMonth periodStart"
  have p: "prevDate = MakeDate (MakeDay ?y (?m - 1) 1) 0"
    using assms(1) by (simp add: prevDate_def Date_UTC_def MakeTime_def)
  have tm: "(0::int) \<le> 0" "0 < msPerDay" by (simp_all add: msPerDay_def)
  note f = first_of_month [OF tm p]
  have m: "0 \<le> ?m" "?m \<le> 11"
    using MonthFromTime_range [of periodStart] by (simp_all add: getUTCMonth_def)
  show ?thesis
  proof (cases "?m = 0")
    case True
    then have "getUTCFullYear prevDate = ?y - 1" "getUTCMonth prevDate = 11"
      using f by (simp_all add: getUTCFullYear_def getUTCMonth_def)
    with True show ?thesis by (simp add: prev_month_key_def prev_month_def)
  next
    case False
    with m have "(?m - 1) div 12 = 0" "(?m - 1) mod 12 = ?m - 1" by simp_all
    then have "getUTCFullYear prevDate = ?y" "getUTCMonth prevDate = ?m - 1"
      using f by (simp_all add: getUTCFullYear_def getUTCMonth_def)
    with False show ?thesis by (simp add: prev_month_key_def prev_month_def)
  qed
qed

lemma prev_month_key_before_filter:
  assumes "100 \<le> getUTCFullYear periodStart"
  shows "prev_month_key periodStart \<in> set (months_before_filter periodType periodStart periodEnd)"
proof -
  define months0 where "months0 = set_add (month_key
      (getUTCFullYear (Date_UTC (getUTCFullYear periodStart) (getUTCMonth periodStart + 1 - 2) 1 0 0 0))
      (getUTCMonth (Date_UTC (getUTCFullYear periodStart) (getUTCMonth periodStart + 1 - 2) 1 0 0 0) + 1)) []"
  have k0: "prev_month_key periodStart \<in> set months0"
    using prevDate_key [OF assms] by (simp add: months0_def set_set_add)
  show ?thesis
  proof (cases "periodType = Yearly")
    case True
    have "prev_month_key periodStart
        \<in> set (set_add (month_key (getUTCFullYear periodStart - 1) 12) months0)"
      using k0 by (simp add: set_set_add)
    then have "prev_month_key periodStart
        \<in> set (yearly_loop periodEnd (Date_UTC (getUTCFullYear periodStart) 0 1 0 0 0)
            (set_add (month_key (getUTCFullYear periodStart - 1) 12) months0))"
      using yearly_loop_superset by blast
    then show ?thesis
      by (simp add: months_before_filter_def Let_def True months0_def)
  next
    case False
    then have pt: "periodType = Daily \<or> periodType = Weekly \<or> periodType = Monthly"
      by (cases periodType) simp_all
    have "prev_month_key periodStart
        \<in> set (set_add (month_key (getUTCFullYear periodEnd) (getUTCMonth periodEnd + 1))
            (set_add (month_key (getUTCFullYear periodStart) (getUTCMonth periodStart + 1)) months0))"
      using k0 by (simp add: set_set_add)
    moreover have "prev_month_key periodStart
        \<in> set (set_add (month_key (getUTCFullYear periodStart) (getUTCMonth periodStart + 1)) months0)"
      using k0 by (simp add: set_set_add)
    ultimately show ?thesis
      using pt by (simp add: months_before_filter_def Let_def months0_def)
  qed
qed

lemma count_list_distinct: "distinct xs \<Longrightarrow> count_list xs x = (if x \<in> set xs then 1 else 0)"
  by (induction xs) auto

text \<open>
  How often the key of the month before the period stands in the resolved set: once when
  that month is not after the month of \<open>now\<close>, and not at all when it is.
\<close>

lemma prev_month_count:
  assumes "100 \<le> getUTCFullYear periodStart"
  shows "count_list (monthsToFetch periodType periodStart periodEnd now)
      (prev_month_key periodStart) =
    (if fst (prev_month periodStart) < getUTCFullYear now
        \<or> (fst (prev_month periodStart) = getUTCFullYear now
            \<and> snd (prev_month periodStart) \<le> getUTCMonth now + 1)
     then 1 else 0)"
proof -
  let ?py = "fst (prev_month periodStart)" and ?pm = "snd (prev_month periodStart)"
  have y: "0 \<le> ?py"
    using assms by (simp add: prev_month_def)
  have m: "0 \<le> ?pm" using prev_month_range [of periodStart] by simp
  have "keep_month now (prev_month_key periodStart) \<longleftrightarrow>
      ?py < getUTCFullYear now \<or> (?py = getUTCFullYear now \<and> ?pm \<le> getUTCMonth now + 1)"
    unfolding prev_month_key_def keep_month_key_nonneg [OF y m] by auto
  then have "prev_month_key periodStart \<in> set (monthsToFetch periodType periodStart periodEnd now)
      \<longleftrightarrow> ?py < getUTCFullYear now \<or> (?py = getUTCFullYear now \<and> ?pm \<le> getUTCMonth now + 1)"
    using prev_month_key_before_filter [OF assms, of periodType periodEnd]
    by (simp add: set_monthsToFetch)
  then show ?thesis
    by (simp add: count_list_distinct [OF distinct_monthsToFetch])
qed

text \<open>Later time values lie in later months, or in the same.\<close>

lemma Day_mono: "t \<le> t' \<Longrightarrow> Day t \<le> Day t'"
  unfolding Day_def msPerDay_def by (rule zdiv_mono1) simp_all

lemma YearFromDay_mono: "d \<le> d' \<Longrightarrow> YearFromDay d \<le> YearFromDay d'"
  using YearFromDay_bounds [of d] by (simp add: YearFromDay_iff)

lemma month_of_day_least: "month_of_day L d = 0 \<longleftrightarrow> d < 31"
  by (simp add: month_of_day_def)

lemma month_of_day_mono:
  assumes "d \<le> d'" and "L = 0 \<or> L = 1"
  shows "month_of_day L d \<le> month_of_day L d'"
proof -
  have "0 \<le> month_of_day L d" "month_of_day L d \<le> 11"
    using month_of_day_range [of L d] by simp_all
  then have "month_of_day L d \<in> {0, 1, 2, 3, 4, 5, 6, 7, 8, 9, 10, 11}"
    by (rule month_index_cases)
  then show ?thesis
    using assms
    by (elim insertE emptyE disjE; simp add: month_of_day_def split: if_splits)
qed

lemma month_not_before:
  assumes "t \<le> t'"
  shows "YearFromTime t < YearFromTime t'
    \<or> (YearFromTime t = YearFromTime t' \<and> MonthFromTime t \<le> MonthFromTime t')"
proof (cases "YearFromTime t = YearFromTime t'")
  case True
  from assms have "Day t \<le> Day t'" by (rule Day_mono)
  then have "DayWithinYear t \<le> DayWithinYear t'"
    by (simp add: DayWithinYear_def True)
  moreover have "InLeapYear t = InLeapYear t'"
    by (simp add: InLeapYear_def True)
  ultimately have "MonthFromTime t \<le> MonthFromTime t'"
    using InLeapYear_cases [of t'] unfolding MonthFromTime_def
    by (simp add: month_of_day_mono)
  with True show ?thesis by simp
next
  case False
  from assms have "Day t \<le> Day t'" by (rule Day_mono)
  then have "YearFromTime t \<le> YearFromTime t'"
    unfolding YearFromTime_def by (rule YearFromDay_mono)
  with False show ?thesis by simp
qed

text \<open>The month before the period is before the month of every time not before the period.\<close>

lemma prev_month_not_after:
  assumes "periodStart \<le> now"
  shows "fst (prev_month periodStart) < getUTCFullYear now
    \<or> (fst (prev_month periodStart) = getUTCFullYear now
        \<and> snd (prev_month periodStart) \<le> getUTCMonth now + 1)"
  using month_not_before [OF assms] MonthFromTime_range [of periodStart]
    MonthFromTime_range [of now]
  by (auto simp: prev_month_def getUTCFullYear_def getUTCMonth_def)

lemma prev_month_once:
  assumes "100 \<le> getUTCFullYear periodStart" and "periodStart \<le> now"
  shows "count_list (monthsToFetch periodType periodStart periodEnd now)
      (prev_month_key periodStart) = 1"
  using prev_month_not_after [OF assms(2)] by (simp add: prev_month_count [OF assms(1)])

text \<open>
  The window of a command begins on or before the clock, and in a year that \<^verbatim>\<open>Date.UTC\<close>
  takes as it is.
\<close>

lemma month_start_le_day:
  assumes "0 \<le> d" and "L = 0 \<or> L = 1"
  shows "month_start L (month_of_day L d) \<le> d"
proof -
  have "0 \<le> month_of_day L d" "month_of_day L d \<le> 11"
    using month_of_day_range [of L d] by simp_all
  then have "month_of_day L d \<in> {0, 1, 2, 3, 4, 5, 6, 7, 8, 9, 10, 11}"
    by (rule month_index_cases)
  then show ?thesis
    using assms
    by (elim insertE emptyE disjE; simp add: month_of_day_def month_start_def split: if_splits)
qed

lemma DateFromTime_ge_1: "1 \<le> DateFromTime t"
  using month_start_le_day [of "DayWithinYear t" "InLeapYear t"] DayWithinYear_range [of t]
    InLeapYear_cases [of t]
  by (simp add: DateFromTime_def MonthFromTime_def)

lemma MakeDate_le:
  assumes "d \<le> Day t"
  shows "MakeDate d 0 \<le> t"
proof -
  from assms have "d * msPerDay \<le> Day t * msPerDay" by (simp add: msPerDay_def)
  moreover have "t = Day t * msPerDay + TimeWithinDay t"
    by (simp add: Day_def TimeWithinDay_def)
  moreover have "0 \<le> TimeWithinDay t" using TimeWithinDay_range [of t] by simp
  ultimately show ?thesis by (simp add: MakeDate_def)
qed

lemma MakeDate_Day0: "Day (MakeDate d 0) = d"
  by (rule MakeDate_Day) (simp_all add: msPerDay_def)

lemma period_window_start:
  assumes "0 \<le> clock"
  shows "\<exists>d. fst (period_window periodType clock) = MakeDate d 0 \<and> - 365 \<le> d \<and> d \<le> Day clock"
proof -
  have y: "1970 \<le> YearFromTime clock" using assms by (rule YearFromTime_ge_1970)
  have d0: "0 \<le> Day clock" using assms by (rule Day_nonneg)
  have yr: "(if 0 \<le> getUTCFullYear clock \<and> getUTCFullYear clock \<le> 99
      then 1900 + getUTCFullYear clock else getUTCFullYear clock) = YearFromTime clock"
    using y by (simp add: getUTCFullYear_def)
  show ?thesis
  proof (cases periodType)
    case Daily
    have "fst (period_window Daily clock) = MakeDate (Day clock) 0"
      using y by (simp add: period_window_def Date_UTC_of_time MakeTime_def)
    with d0 show ?thesis unfolding Daily by (intro exI [of _ "Day clock"]) simp
  next
    case Weekly
    have "fst (period_window Weekly clock) = MakeDate (Day clock - (Day clock + 3) mod 7) 0"
      by (simp add: period_window_weekly [OF assms])
    moreover have "- 365 \<le> Day clock - (Day clock + 3) mod 7" using d0 by simp
    ultimately show ?thesis
      unfolding Weekly by (intro exI [of _ "Day clock - (Day clock + 3) mod 7"]) simp
  next
    case Monthly
    let ?d = "MakeDay (YearFromTime clock) (MonthFromTime clock) 1"
    have f: "fst (period_window Monthly clock) = MakeDate ?d 0"
      by (simp add: period_window_def Date_UTC_def yr MakeTime_def getUTCMonth_def)
    have e: "?d = Day clock + (1 - DateFromTime clock)" by (rule MakeDay_of_time)
    have le: "?d \<le> Day clock" using DateFromTime_ge_1 [of clock] by (simp add: e)
    have "?d = DayFromYear (YearFromTime clock)
        + month_start (InLeapYear clock) (MonthFromTime clock)"
      using MonthFromTime_range [of clock] by (simp add: MakeDay_def InLeapYear_def)
    moreover have "0 \<le> month_start (InLeapYear clock) (MonthFromTime clock)"
      using month_start_range [of "MonthFromTime clock" "InLeapYear clock"]
        MonthFromTime_range [of clock] InLeapYear_cases [of clock] by simp
    moreover have "0 \<le> DayFromYear (YearFromTime clock)"
      using DayFromYear_mono [OF y] by (simp add: DayFromYear_1970)
    ultimately have "- 365 \<le> ?d" by simp
    with f le show ?thesis unfolding Monthly by (intro exI [of _ ?d]) simp
  next
    case Yearly
    let ?d = "DayFromYear (YearFromTime clock)"
    have f: "fst (period_window Yearly clock) = MakeDate ?d 0"
      by (simp add: period_window_def Date_UTC_def yr MakeTime_def MakeDay_def month_start_def)
    have "?d \<le> Day clock"
      using YearFromDay_bounds [of "Day clock"] by (simp add: YearFromTime_def)
    moreover have "0 \<le> ?d"
      using DayFromYear_mono [OF y] by (simp add: DayFromYear_1970)
    ultimately show ?thesis using f unfolding Yearly by (intro exI [of _ ?d]) simp
  qed
qed

lemma period_window_start_le:
  assumes "0 \<le> clock"
  shows "fst (period_window periodType clock) \<le> clock"
    and "100 \<le> getUTCFullYear (fst (period_window periodType clock))"
proof -
  from period_window_start [OF assms, of periodType]
  obtain d where f: "fst (period_window periodType clock) = MakeDate d 0"
    and d: "- 365 \<le> d" "d \<le> Day clock"
    by blast
  show "fst (period_window periodType clock) \<le> clock"
    unfolding f using d(2) by (rule MakeDate_le)
  have "1969 \<le> YearFromDay d" using d(1) by (rule YearFromDay_ge_1969)
  then show "100 \<le> getUTCFullYear (fst (period_window periodType clock))"
    by (simp add: f getUTCFullYear_def YearFromTime_def MakeDate_Day0)
qed

text \<open>The yearly window begins in the January of the clock's year.\<close>

lemma yearly_window_start:
  assumes "0 \<le> clock"
  shows "getUTCMonth (fst (period_window Yearly clock)) = 0"
    and "getUTCFullYear (fst (period_window Yearly clock)) = getUTCFullYear clock"
proof -
  let ?y = "getUTCFullYear clock"
  have y: "1970 \<le> ?y"
    using YearFromTime_ge_1970 [OF assms] by (simp add: getUTCFullYear_def)
  have p: "fst (period_window Yearly clock) = MakeDate (MakeDay ?y 0 1) 0"
    using y by (simp add: period_window_def Date_UTC_def MakeTime_def)
  have tm: "(0::int) \<le> 0" "0 < msPerDay" by (simp_all add: msPerDay_def)
  note f = first_of_month [OF tm p]
  show "getUTCMonth (fst (period_window Yearly clock)) = 0"
    using f(2) by (simp add: getUTCMonth_def)
  show "getUTCFullYear (fst (period_window Yearly clock)) = getUTCFullYear clock"
    using f(1) by (simp add: getUTCFullYear_def)
qed

lemma january_2026:
  "getUTCFullYear 1767225600000 = 2026" "getUTCMonth 1767225600000 = 0"
  "month_key 2025 12 = ''2025-12''"
  by code_simp+

section \<open>The order of the fetch\<close>

lemma less_append_same: "xs @ ys < xs @ zs \<longleftrightarrow> ys < zs" for xs :: string
  by (induction xs) simp_all

lemma js_String_months:
  "js_String 2 = ''2''" "js_String 3 = ''3''" "js_String 4 = ''4''" "js_String 5 = ''5''"
  "js_String 6 = ''6''" "js_String 7 = ''7''" "js_String 8 = ''8''" "js_String 9 = ''9''"
  "js_String 10 = ''10''" "js_String 11 = ''11''" "js_String 12 = ''12''"
  by code_simp+

lemma month_key_order:
  assumes "m \<in> {10, 11, 12}" and "m' \<in> {2, 3, 4, 5, 6, 7, 8, 9}"
  shows "month_key y m < month_key y m'"
proof -
  have "js_String m < js_String m'"
    using assms by (elim insertE emptyE; simp add: js_String_months)
  then show ?thesis
    by (simp add: month_key_def less_append_same)
qed

lemma week_unsorted: "\<not> sorted (map end_time [game_oct2, game_sep30])"
  by (simp add: game_oct2_def game_sep30_def)

section \<open>The claims\<close>

text \<open>
  C1. The end rating of a class is the subject's rating in the game of that class and of the
  period that ends last. In the week of 2025-10-03 the months are fetched in the order
  October, August, September, so that the game of 2025-09-30 stands last among the period's
  games: \<open>getStats\<close> gives its rating 1500 as the end rating, while the game that ends last
  is that of 2025-10-02, with rating 1520. (The names are ASCII, and \<open>toLowerCase\<close> is
  \<open>ascii_toLowerCase\<close> on them.)
\<close>

theorem C1_end_rating_of_week:
  "period_window Weekly week_now = (week_start, week_end)
   \<and> (\<exists>r. getStats ascii_toLowerCase week_world week_now ''alice'' week_start week_end Weekly
          = Inr r
        \<and> gamesInPeriod r = [game_oct2, game_sep30]
        \<and> endRatings r Blitz = Some 1500
        \<and> last (sort_key end_time
              (filter (\<lambda>g. time_class g = mode_name Blitz) (gamesInPeriod r))) = game_oct2
        \<and> subject_rating ascii_toLowerCase ''alice'' game_oct2 = 1520)"
proof -
  let ?r = "aggregate ascii_toLowerCase ''alice'' [game_oct2, game_sep30] week_start week_end"
  have g: "gamesInPeriod ?r = [game_oct2, game_sep30]"
    by (simp only: aggregate_gamesInPeriod week_in_period)
  have e: "endRatings ?r Blitz = Some 1500"
    by (simp add: aggregate_endRatings week_mode_games week_ratings)
  have l: "last (sort_key end_time
      (filter (\<lambda>g. time_class g = mode_name Blitz) (gamesInPeriod ?r))) = game_oct2"
    by (simp only: g week_chronological) simp
  show ?thesis
    using week_window week_getStats g e l week_ratings(1) by blast
qed

text \<open>
  C2. A game whose white and black usernames both fail to match the requested username makes
  the request fail with a data-consistency error, and neither side's rating is taken for the
  subject. Not so: for \<open>dave\<close> the request returns a result, and its blitz end rating is
  the rating of Black in a game between \<open>carol\<close> and \<open>Alice\<close>.
\<close>

theorem C2_counterexample:
  "\<exists>r. getStats ascii_toLowerCase stranger_world week_now ''dave'' week_start week_end Weekly
         = Inr r
     \<and> gamesInPeriod r = [game_oct2]
     \<and> ascii_toLowerCase (username (white game_oct2)) \<noteq> ascii_toLowerCase ''dave''
     \<and> ascii_toLowerCase (username (black game_oct2)) \<noteq> ascii_toLowerCase ''dave''
     \<and> endRatings r Blitz = Some (rating (black game_oct2))"
proof -
  let ?r = "aggregate ascii_toLowerCase ''dave'' [game_oct2] week_start week_end"
  have g: "gamesInPeriod ?r = [game_oct2]"
    using stranger_mode_games by (simp add: aggregate_gamesInPeriod mode_games_def split: if_splits)
  have e: "endRatings ?r Blitz = Some (rating (black game_oct2))"
    using stranger_names(1)
    by (simp add: aggregate_endRatings stranger_mode_games subject_rating_def)
  show ?thesis
    using stranger_getStats g stranger_names e by blast
qed

text \<open>
  C2, as the code has it. \<open>getStats\<close> has no data-consistency error, and it reads the
  subject's rating from a game at three places: from the latest game of a class before the
  period, from the first game of the class in the period where none is before it, and from
  the last game of the class in the period. At each of them a game that names neither side
  as the subject (whatever \<open>toLowerCase\<close> does to the names) gives the rating of Black.
  \<open>getStats\<close> returns its result whenever the value of every month can be spread.
\<close>

theorem C2_black_rating_taken:
  "(getStats toLowerCase world now uname periodStart periodEnd periodType = Inr r \<longrightarrow>
      (\<exists>fetched.
         fetch_loop world uname (monthsToFetch periodType periodStart periodEnd now) [] =
           Inr fetched
         \<and> (\<forall>c. (games_before periodStart (sort_key end_time fetched) c \<noteq> []
                  \<and> names_neither toLowerCase uname
                      (last (games_before periodStart (sort_key end_time fetched) c))
                \<longrightarrow> startRatings r c = Some (rating (black
                      (last (games_before periodStart (sort_key end_time fetched) c)))))
              \<and> (games_before periodStart (sort_key end_time fetched) c = []
                  \<and> mode_games periodStart periodEnd fetched c \<noteq> []
                  \<and> names_neither toLowerCase uname
                      (hd (mode_games periodStart periodEnd fetched c))
                \<longrightarrow> startRatings r c = Some (rating (black
                      (hd (mode_games periodStart periodEnd fetched c)))))
              \<and> (mode_games periodStart periodEnd fetched c \<noteq> []
                  \<and> names_neither toLowerCase uname
                      (last (mode_games periodStart periodEnd fetched c))
                \<longrightarrow> endRatings r c = Some (rating (black
                      (last (mode_games periodStart periodEnd fetched c))))))))
   \<and> ((\<forall>k\<in>set (monthsToFetch periodType periodStart periodEnd now).
          bucket_spreads world uname k) \<longrightarrow>
        (\<exists>r. getStats toLowerCase world now uname periodStart periodEnd periodType = Inr r))"
proof (intro conjI impI)
  let ?f = "fetched_games world now uname periodStart periodEnd periodType"
  let ?before = "\<lambda>c. games_before periodStart (sort_key end_time ?f) c"
  let ?games = "\<lambda>c. mode_games periodStart periodEnd ?f c"
  assume r: "getStats toLowerCase world now uname periodStart periodEnd periodType = Inr r"
  note f = getStats_Inr [OF r]
  have b: "subject_rating toLowerCase uname g = rating (black g)"
    if "names_neither toLowerCase uname g" for g
    using that by (simp add: names_neither_def subject_rating_def)
  have "startRatings r c = Some (rating (black (last (?before c))))"
    if "?before c \<noteq> [] \<and> names_neither toLowerCase uname (last (?before c))" for c
    using that by (simp add: f(2) aggregate_startRatings pop_def b)
  moreover have "startRatings r c = Some (rating (black (hd (?games c))))"
    if "?before c = [] \<and> ?games c \<noteq> [] \<and> names_neither toLowerCase uname (hd (?games c))"
    for c
    using that by (cases "?games c") (simp_all add: f(2) aggregate_startRatings pop_def b)
  moreover have "endRatings r c = Some (rating (black (last (?games c))))"
    if "?games c \<noteq> [] \<and> names_neither toLowerCase uname (last (?games c))" for c
    using that by (simp add: f(2) aggregate_endRatings b)
  ultimately show "\<exists>fetched.
      fetch_loop world uname (monthsToFetch periodType periodStart periodEnd now) [] =
        Inr fetched
      \<and> (\<forall>c. (games_before periodStart (sort_key end_time fetched) c \<noteq> []
               \<and> names_neither toLowerCase uname
                   (last (games_before periodStart (sort_key end_time fetched) c))
             \<longrightarrow> startRatings r c = Some (rating (black
                   (last (games_before periodStart (sort_key end_time fetched) c)))))
           \<and> (games_before periodStart (sort_key end_time fetched) c = []
               \<and> mode_games periodStart periodEnd fetched c \<noteq> []
               \<and> names_neither toLowerCase uname
                   (hd (mode_games periodStart periodEnd fetched c))
             \<longrightarrow> startRatings r c = Some (rating (black
                   (hd (mode_games periodStart periodEnd fetched c)))))
           \<and> (mode_games periodStart periodEnd fetched c \<noteq> []
               \<and> names_neither toLowerCase uname
                   (last (mode_games periodStart periodEnd fetched c))
             \<longrightarrow> endRatings r c = Some (rating (black
                   (last (mode_games periodStart periodEnd fetched c))))))"
    using f(1) by blast
next
  assume "\<forall>k\<in>set (monthsToFetch periodType periodStart periodEnd now).
      bucket_spreads world uname k"
  then show "\<exists>r. getStats toLowerCase world now uname periodStart periodEnd periodType = Inr r"
    by (simp add: getStats_returns)
qed

text \<open>
  For \<open>dave\<close> in the week of 2025-10-03: the blitz start rating is that of Black in the game
  of 2025-09-20, before the period; the rapid start rating that of Black in the game of
  2025-10-01, the first rapid game of the period; the blitz end rating that of Black in the
  game of 2025-10-02. None of the three games names \<open>dave\<close>.
\<close>

theorem C2_witness:
  "bucket_spreads dave_world ''dave'' ''2025-10''
   \<and> bucket_spreads dave_world ''dave'' ''2025-8''
   \<and> bucket_spreads dave_world ''dave'' ''2025-9''
   \<and> (\<exists>r. getStats ascii_toLowerCase dave_world week_now ''dave'' week_start week_end Weekly
          = Inr r
        \<and> names_neither ascii_toLowerCase ''dave'' game_sep20
        \<and> names_neither ascii_toLowerCase ''dave'' game_oct1
        \<and> names_neither ascii_toLowerCase ''dave'' game_oct2
        \<and> startRatings r Blitz = Some 1450
        \<and> startRatings r Rapid = Some 1350
        \<and> endRatings r Blitz = Some 1520)"
proof -
  let ?r = "aggregate ascii_toLowerCase ''dave'' [game_oct1, game_oct2, game_sep20]
      week_start week_end"
  note c = C2_black_rating_taken [of ascii_toLowerCase dave_world week_now "''dave''"
      week_start week_end Weekly ?r]
  from c dave_getStats obtain fetched where
    f: "fetch_loop dave_world ''dave''
        (monthsToFetch Weekly week_start week_end week_now) [] = Inr fetched"
    and s: "\<forall>c. (games_before week_start (sort_key end_time fetched) c \<noteq> []
                  \<and> names_neither ascii_toLowerCase ''dave''
                      (last (games_before week_start (sort_key end_time fetched) c))
                \<longrightarrow> startRatings ?r c = Some (rating (black
                      (last (games_before week_start (sort_key end_time fetched) c)))))
              \<and> (games_before week_start (sort_key end_time fetched) c = []
                  \<and> mode_games week_start week_end fetched c \<noteq> []
                  \<and> names_neither ascii_toLowerCase ''dave''
                      (hd (mode_games week_start week_end fetched c))
                \<longrightarrow> startRatings ?r c = Some (rating (black
                      (hd (mode_games week_start week_end fetched c)))))
              \<and> (mode_games week_start week_end fetched c \<noteq> []
                  \<and> names_neither ascii_toLowerCase ''dave''
                      (last (mode_games week_start week_end fetched c))
                \<longrightarrow> endRatings ?r c = Some (rating (black
                      (last (mode_games week_start week_end fetched c)))))"
    by blast
  from f have fetched: "fetched = [game_oct1, game_oct2, game_sep20]"
    by (simp only: week_months dave_fetch sum.inject)
  from s [rule_format, of Blitz] have "startRatings ?r Blitz = Some 1450"
    by (simp only: fetched dave_games) (simp add: dave_names dave_black)
  moreover from s [rule_format, of Rapid] have "startRatings ?r Rapid = Some 1350"
    by (simp only: fetched dave_games) (simp add: dave_names dave_black)
  moreover from s [rule_format, of Blitz] have "endRatings ?r Blitz = Some 1520"
    by (simp only: fetched dave_games) (simp add: dave_names dave_black)
  moreover from c dave_spreads
  have "\<exists>r. getStats ascii_toLowerCase dave_world week_now ''dave'' week_start week_end Weekly
      = Inr r"
    by blast
  moreover have "bucket_spreads dave_world ''dave'' ''2025-10''"
    "bucket_spreads dave_world ''dave'' ''2025-8''"
    "bucket_spreads dave_world ''dave'' ''2025-9''"
    using dave_spreads by (simp_all add: week_months)
  ultimately show ?thesis
    using dave_getStats dave_names by blast
qed

text \<open>
  C3. The start rating of a class is the subject's rating in the latest game of that class
  before the period, else in the first game of the period by end time, else null. In the
  week of 2025-10-03 there is no blitz game before the period, and the first blitz game of
  the period is that of 2025-09-30, with rating 1500; \<open>getStats\<close> takes the game that was
  fetched first, that of 2025-10-02, and gives 1520.
\<close>

theorem C3_start_rating_of_week:
  "period_window Weekly week_now = (week_start, week_end)
   \<and> (\<exists>fetched r.
        fetch_loop week_world ''alice''
          (monthsToFetch Weekly week_start week_end week_now) [] = Inr fetched
        \<and> getStats ascii_toLowerCase week_world week_now ''alice'' week_start week_end Weekly
            = Inr r
        \<and> filter (\<lambda>g. time_class g = mode_name Blitz \<and> end_time g * 1000 < week_start)
              fetched = []
        \<and> startRatings r Blitz = Some 1520
        \<and> hd (sort_key end_time
              (filter (\<lambda>g. time_class g = mode_name Blitz) (gamesInPeriod r))) = game_sep30
        \<and> subject_rating ascii_toLowerCase ''alice'' game_sep30 = 1500)"
proof -
  let ?r = "aggregate ascii_toLowerCase ''alice'' [game_oct2, game_sep30] week_start week_end"
  have f: "fetch_loop week_world ''alice''
      (monthsToFetch Weekly week_start week_end week_now) [] = Inr [game_oct2, game_sep30]"
    by (simp only: week_months week_fetch)
  have b: "filter (\<lambda>g. time_class g = mode_name Blitz \<and> end_time g * 1000 < week_start)
      [game_oct2, game_sep30] = []"
    by code_simp
  have g: "gamesInPeriod ?r = [game_oct2, game_sep30]"
    by (simp only: aggregate_gamesInPeriod week_in_period)
  have s: "startRatings ?r Blitz = Some 1520"
    by (simp only: aggregate_startRatings week_games_before week_mode_games)
      (simp add: pop_def week_ratings)
  have h: "hd (sort_key end_time
      (filter (\<lambda>g. time_class g = mode_name Blitz) (gamesInPeriod ?r))) = game_sep30"
    by (simp only: g week_chronological) simp
  show ?thesis
    using week_window week_getStats f b g s h week_ratings(2) by blast
qed

text \<open>
  C4. A month whose fetch fails (a network error, a status that is not a success, a
  malformed payload) contributes no games, and no exception reaches the caller of
  \<open>getStats\<close>. In the week of 2025-10-03 the archive of October answers 200 with the body
  \<^verbatim>\<open>{"games": {}}\<close>: \<open>fetchGamesForMonth\<close> returns the object as it is, and the spread of
  it, outside the \<^verbatim>\<open>try\<close>, throws a TypeError out of \<open>getStats\<close>.
\<close>

theorem C4_malformed_games_raises:
  "period_window Weekly week_now = (week_start, week_end)
   \<and> monthsToFetch Weekly week_start week_end week_now = [''2025-10'', ''2025-8'', ''2025-9'']
   \<and> object_world (archive_url ''alice'' ''2025'' ''10'') =
       Response True (Data (Some NotIterable))
   \<and> fetchGamesForMonth object_world ''alice'' ''2025'' ''10'' = NotIterable
   \<and> getStats ascii_toLowerCase object_world week_now ''alice'' week_start week_end Weekly =
       Inl TypeError"
  using week_window week_months object_october object_getStats by blast

text \<open>
  C5. On every call of \<open>getStats\<close> the resolved set has exactly one bucket for the calendar
  month before the month of \<open>periodStart\<close>; the month before a January is the December of
  the year before, as for every yearly period. The calls are those of the repository: the
  period is the window of a clock that reads a time at or after the epoch, and \<open>getStats\<close>
  reads its own clock \<open>now\<close> afterwards. More generally the bucket is there exactly once for
  every \<open>periodStart\<close> not after \<open>now\<close> in a year that \<^verbatim>\<open>Date.UTC\<close> takes as it is.
\<close>

theorem C5_previous_month_bucket:
  "(0 \<le> clock \<and> clock \<le> now \<longrightarrow>
      count_list
        (monthsToFetch periodType (fst (period_window periodType clock))
           (snd (period_window periodType clock)) now)
        (prev_month_key (fst (period_window periodType clock))) = 1)
   \<and> (0 \<le> clock \<longrightarrow>
        prev_month_key (fst (period_window Yearly clock)) =
          month_key (getUTCFullYear clock - 1) 12)
   \<and> (100 \<le> getUTCFullYear periodStart \<and> periodStart \<le> now \<longrightarrow>
        count_list (monthsToFetch periodType periodStart periodEnd now)
          (prev_month_key periodStart) = 1)
   \<and> (getUTCMonth periodStart = 0 \<longrightarrow>
        prev_month_key periodStart = month_key (getUTCFullYear periodStart - 1) 12)
   \<and> (getUTCMonth periodStart \<noteq> 0 \<longrightarrow>
        prev_month_key periodStart =
          month_key (getUTCFullYear periodStart) (getUTCMonth periodStart))"
proof (intro conjI impI)
  assume c: "0 \<le> clock \<and> clock \<le> now"
  then have "0 \<le> clock" by simp
  note w = period_window_start_le [OF this, of periodType]
  from w(1) c have "fst (period_window periodType clock) \<le> now" by simp
  with w(2) show "count_list
      (monthsToFetch periodType (fst (period_window periodType clock))
         (snd (period_window periodType clock)) now)
      (prev_month_key (fst (period_window periodType clock))) = 1"
    by (rule prev_month_once)
next
  assume "0 \<le> clock"
  then show "prev_month_key (fst (period_window Yearly clock)) =
      month_key (getUTCFullYear clock - 1) 12"
    by (simp add: prev_month_key_def prev_month_def yearly_window_start)
next
  assume "100 \<le> getUTCFullYear periodStart \<and> periodStart \<le> now"
  then show "count_list (monthsToFetch periodType periodStart periodEnd now)
      (prev_month_key periodStart) = 1"
    by (simp add: prev_month_once)
next
  assume "getUTCMonth periodStart = 0"
  then show "prev_month_key periodStart = month_key (getUTCFullYear periodStart - 1) 12"
    by (simp add: prev_month_key_def prev_month_def)
next
  assume "getUTCMonth periodStart \<noteq> 0"
  then show "prev_month_key periodStart =
      month_key (getUTCFullYear periodStart) (getUTCMonth periodStart)"
    by (simp add: prev_month_key_def prev_month_def)
qed

text \<open>
  The week of 2025-10-03, whose window begins in September: the bucket of August is there
  once. The year 2026 with the clock at 2026-01-10 12:00:00 UTC: the bucket is that of
  December 2025.
\<close>

theorem C5_witness:
  "(0::int) \<le> week_now \<and> week_now \<le> week_now
   \<and> period_window Weekly week_now = (week_start, week_end)
   \<and> prev_month_key week_start = ''2025-8''
   \<and> count_list (monthsToFetch Weekly week_start week_end week_now) ''2025-8'' = 1
   \<and> (0::int) \<le> 1768046400000
   \<and> getUTCFullYear 1768046400000 = 2026
   \<and> prev_month_key (fst (period_window Yearly 1768046400000)) = ''2025-12''
   \<and> 100 \<le> getUTCFullYear 1767225600000 \<and> (1767225600000::int) \<le> 1768046400000
   \<and> getUTCMonth 1767225600000 = 0
   \<and> prev_month_key 1767225600000 = ''2025-12''
   \<and> count_list (monthsToFetch Yearly 1767225600000 1798761599000 1768046400000)
        ''2025-12'' = 1
   \<and> getUTCMonth week_start \<noteq> 0"
proof -
  have n: "(0::int) \<le> week_now" "(0::int) \<le> 1768046400000"
    "(1767225600000::int) \<le> 1768046400000"
    by (simp_all add: week_now_def)
  have y: "getUTCFullYear 1768046400000 = 2026" by code_simp
  have s: "getUTCFullYear week_start = 2025" "getUTCMonth week_start = 8"
    "month_key 2025 8 = ''2025-8''"
    by code_simp+
  note a = C5_previous_month_bucket [of week_now week_now Weekly week_start week_end]
  note b = C5_previous_month_bucket [of 1768046400000 1768046400000 Yearly 1767225600000
      1798761599000]
  from a s have k: "prev_month_key week_start = ''2025-8''"
    by simp
  from a n(1) have "count_list (monthsToFetch Weekly week_start week_end week_now)
      (prev_month_key week_start) = 1"
    by (simp add: week_window)
  then have c1: "count_list (monthsToFetch Weekly week_start week_end week_now) ''2025-8'' = 1"
    by (simp only: k)
  from b n(2) have "prev_month_key (fst (period_window Yearly 1768046400000)) =
      month_key (getUTCFullYear 1768046400000 - 1) 12"
    by blast
  then have k2: "prev_month_key (fst (period_window Yearly 1768046400000)) = ''2025-12''"
    by (simp add: y january_2026)
  from b january_2026 have k3: "prev_month_key 1767225600000 = ''2025-12''"
    by simp
  have h: "100 \<le> getUTCFullYear 1767225600000" by (simp add: january_2026)
  from b h n(3)
  have "count_list (monthsToFetch Yearly 1767225600000 1798761599000 1768046400000)
      (prev_month_key 1767225600000) = 1"
    by blast
  then have c2: "count_list (monthsToFetch Yearly 1767225600000 1798761599000 1768046400000)
      ''2025-12'' = 1"
    by (simp only: k3)
  show ?thesis
    using n week_window k c1 y k2 h january_2026(2) k3 c2 s(2) by simp
qed

text \<open>
  C6. The games of the period that \<open>getStats\<close> returns are exactly the fetched games whose
  end time lies in the closed interval from \<open>periodStart\<close> to \<open>periodEnd\<close>, both ends
  included, in the order of the fetch; the count of each class is the number of games of
  that class among them. \<open>getStats\<close> returns such a result whenever the value of every month
  can be spread.
\<close>

theorem C6_gamesInPeriod_closed_interval:
  "(getStats toLowerCase world now uname periodStart periodEnd periodType = Inr r \<longrightarrow>
      (\<exists>fetched.
         fetch_loop world uname (monthsToFetch periodType periodStart periodEnd now) [] =
           Inr fetched
         \<and> gamesInPeriod r =
             filter (\<lambda>g. periodStart \<le> end_time g * 1000 \<and> end_time g * 1000 \<le> periodEnd)
               fetched
         \<and> (\<forall>c. stats r c =
               length (filter (\<lambda>g. time_class g = mode_name c) (gamesInPeriod r)))))
   \<and> ((\<forall>k\<in>set (monthsToFetch periodType periodStart periodEnd now).
          bucket_spreads world uname k) \<longrightarrow>
        (\<exists>r. getStats toLowerCase world now uname periodStart periodEnd periodType = Inr r))"
proof (intro conjI impI)
  let ?f = "fetched_games world now uname periodStart periodEnd periodType"
  assume r: "getStats toLowerCase world now uname periodStart periodEnd periodType = Inr r"
  note f = getStats_Inr [OF r]
  have "gamesInPeriod r =
      filter (\<lambda>g. periodStart \<le> end_time g * 1000 \<and> end_time g * 1000 \<le> periodEnd) ?f"
    by (simp add: f(2) aggregate_gamesInPeriod in_period_def [abs_def] Let_def)
  moreover have "\<forall>c. stats r c =
      length (filter (\<lambda>g. time_class g = mode_name c) (gamesInPeriod r))"
    by (simp add: f(2) aggregate_stats aggregate_gamesInPeriod mode_games_def)
  ultimately show "\<exists>fetched.
      fetch_loop world uname (monthsToFetch periodType periodStart periodEnd now) [] =
        Inr fetched
      \<and> gamesInPeriod r =
          filter (\<lambda>g. periodStart \<le> end_time g * 1000 \<and> end_time g * 1000 \<le> periodEnd)
            fetched
      \<and> (\<forall>c. stats r c =
            length (filter (\<lambda>g. time_class g = mode_name c) (gamesInPeriod r)))"
    using f(1) by blast
next
  assume "\<forall>k\<in>set (monthsToFetch periodType periodStart periodEnd now).
      bucket_spreads world uname k"
  then show "\<exists>r. getStats toLowerCase world now uname periodStart periodEnd periodType = Inr r"
    by (simp add: getStats_returns)
qed

theorem C6_witness:
  "getStats ascii_toLowerCase week_world week_now ''alice'' week_start week_end Weekly =
     Inr (aggregate ascii_toLowerCase ''alice'' [game_oct2, game_sep30] week_start week_end)
   \<and> (\<exists>fetched.
        fetch_loop week_world ''alice''
          (monthsToFetch Weekly week_start week_end week_now) [] = Inr fetched
        \<and> gamesInPeriod
            (aggregate ascii_toLowerCase ''alice'' [game_oct2, game_sep30] week_start week_end) =
            filter (\<lambda>g. week_start \<le> end_time g * 1000 \<and> end_time g * 1000 \<le> week_end)
              fetched
        \<and> stats (aggregate ascii_toLowerCase ''alice'' [game_oct2, game_sep30]
              week_start week_end) Blitz = 2)
   \<and> bucket_spreads week_world ''alice'' ''2025-10''
   \<and> bucket_spreads week_world ''alice'' ''2025-8''
   \<and> bucket_spreads week_world ''alice'' ''2025-9''"
proof -
  let ?r = "aggregate ascii_toLowerCase ''alice'' [game_oct2, game_sep30] week_start week_end"
  note c = C6_gamesInPeriod_closed_interval [of ascii_toLowerCase week_world week_now
      "''alice''" week_start week_end Weekly ?r]
  from c week_getStats obtain fetched where
    f: "fetch_loop week_world ''alice''
        (monthsToFetch Weekly week_start week_end week_now) [] = Inr fetched"
    and g: "gamesInPeriod ?r =
        filter (\<lambda>g. week_start \<le> end_time g * 1000 \<and> end_time g * 1000 \<le> week_end) fetched"
    and s: "\<forall>c. stats ?r c =
        length (filter (\<lambda>g. time_class g = mode_name c) (gamesInPeriod ?r))"
    by blast
  have "gamesInPeriod ?r = [game_oct2, game_sep30]"
    by (simp only: aggregate_gamesInPeriod week_in_period)
  with s have "stats ?r Blitz = length (filter (\<lambda>g. time_class g = mode_name Blitz)
      [game_oct2, game_sep30])"
    by simp
  also have "\<dots> = 2" by code_simp
  finally have n: "stats ?r Blitz = 2" .
  have sp: "bucket_spreads week_world ''alice'' ''2025-10''"
    "bucket_spreads week_world ''alice'' ''2025-8''"
    "bucket_spreads week_world ''alice'' ''2025-9''"
    using week_spreads by (simp_all add: week_months)
  show ?thesis
    using week_getStats f g n sp by blast
qed

text \<open>
  C7. No month of the resolved set is after the month of \<open>now\<close>: every key of the set is
  the key of a year \<open>y\<close> and a month \<open>m\<close> from 1 to 12, and whenever it is the key of \<open>y\<close> and
  \<open>m\<close>, either \<open>y\<close> is before the year of \<open>now\<close>, or it is that year and \<open>m\<close> is not after the
  month of \<open>now\<close>.
\<close>

theorem C7_no_month_after_now:
  assumes "k \<in> set (monthsToFetch periodType periodStart periodEnd now)"
  shows "(\<exists>y m. k = month_key y m \<and> 1 \<le> m \<and> m \<le> 12)
    \<and> (\<forall>y m. k = month_key y m \<and> 0 \<le> m \<longrightarrow>
          y < getUTCFullYear now \<or> (y = getUTCFullYear now \<and> m \<le> getUTCMonth now + 1))"
proof -
  from assms have mem: "k \<in> set (months_before_filter periodType periodStart periodEnd)"
    and keep: "keep_month now k"
    by (simp_all add: set_monthsToFetch)
  from mem months_before_filter_keys have "is_month_key k" by blast
  then have "\<exists>y m. k = month_key y m \<and> 1 \<le> m \<and> m \<le> 12"
    by (simp add: is_month_key_def)
  moreover have "y < getUTCFullYear now \<or> (y = getUTCFullYear now \<and> m \<le> getUTCMonth now + 1)"
    if "k = month_key y m \<and> 0 \<le> m" for y m
    using keep that keep_month_not_after [of now y m] by simp
  ultimately show ?thesis by blast
qed

theorem C7_witness:
  "''2025-10'' \<in> set (monthsToFetch Weekly week_start week_end week_now)
   \<and> ''2025-10'' = month_key 2025 10
   \<and> getUTCFullYear week_now = 2025 \<and> getUTCMonth week_now + 1 = 10
   \<and> (2025 < getUTCFullYear week_now
        \<or> (2025 = getUTCFullYear week_now \<and> 10 \<le> getUTCMonth week_now + 1))"
proof -
  have mem: "''2025-10'' \<in> set (monthsToFetch Weekly week_start week_end week_now)"
    by (simp add: week_months)
  from C7_no_month_after_now [OF mem]
  have "\<forall>y m. ''2025-10'' = month_key y m \<and> 0 \<le> m \<longrightarrow>
      y < getUTCFullYear week_now \<or> (y = getUTCFullYear week_now \<and> m \<le> getUTCMonth week_now + 1)"
    by blast
  then have "2025 < getUTCFullYear week_now
      \<or> (2025 = getUTCFullYear week_now \<and> 10 \<le> getUTCMonth week_now + 1)"
    using key_2025_10 by (metis zero_le_numeral)
  with mem key_2025_10 week_now_month show ?thesis by simp
qed

text \<open>
  C8. For every reading of the clock (at or after the epoch) and every period type the
  window has \<open>periodStart \<le> periodEnd\<close>. For the weekly period, \<open>periodStart\<close> is 00:00:00
  UTC of a Monday that is not after the day of the clock and less than seven days before
  it, so the most recent Monday, and the day of the clock itself when that is a Monday;
  \<open>periodEnd\<close> is 23:59:59 UTC of the day of the clock.
\<close>

theorem C8_period_window:
  assumes "0 \<le> now"
  shows "fst (period_window periodType now) \<le> snd (period_window periodType now)
    \<and> TimeWithinDay (fst (period_window Weekly now)) = 0
    \<and> getUTCDay (fst (period_window Weekly now)) = 1
    \<and> Day (fst (period_window Weekly now)) \<le> Day now
    \<and> Day now < Day (fst (period_window Weekly now)) + 7
    \<and> (getUTCDay now = 1 \<longrightarrow> Day (fst (period_window Weekly now)) = Day now)
    \<and> snd (period_window Weekly now) = MakeDate (Day now) (MakeTime 23 59 59 0)"
proof -
  let ?monday = "Day now - (Day now + 3) mod 7"
  have d: "Day (MakeDate day 0) = day" for day
    by (rule MakeDate_Day) (simp_all add: msPerDay_def)
  have "TimeWithinDay (MakeDate ?monday 0) = 0"
    by (simp add: TimeWithinDay_def MakeDate_def)
  moreover have "getUTCDay (MakeDate ?monday 0) = 1"
    unfolding getUTCDay_def WeekDay_def d by presburger
  moreover have "?monday \<le> Day now" "Day now < ?monday + 7"
    by simp_all
  moreover have "getUTCDay now = 1 \<longrightarrow> ?monday = Day now"
    unfolding getUTCDay_def WeekDay_def by presburger
  ultimately show ?thesis
    using period_window_ordered [OF assms, of periodType]
    by (simp add: period_window_weekly [OF assms] d)
qed

theorem C8_witness:
  "(0::int) \<le> week_now
   \<and> period_window Weekly week_now = (1759104000000, 1759535999000)
   \<and> (1759104000000::int) \<le> 1759535999000
   \<and> getUTCDay 1759104000000 = 1
   \<and> Day week_now = 20364 \<and> Day 1759104000000 = 20360"
proof -
  have n: "(0::int) \<le> week_now" by (simp add: week_now_def)
  have w: "period_window Weekly week_now = (1759104000000, 1759535999000)"
    using week_window by (simp add: week_start_def week_end_def)
  have d: "Day week_now = 20364" "Day 1759104000000 = 20360"
    by (simp_all add: Day_def week_now_def msPerDay_def)
  from C8_period_window [OF n, of Weekly]
  have "fst (period_window Weekly week_now) \<le> snd (period_window Weekly week_now)"
    and "getUTCDay (fst (period_window Weekly week_now)) = 1"
    by blast+
  with n w d show ?thesis by simp
qed

text \<open>
  C9. In every result of \<open>getStats\<close> and for every class, the end rating is not null
  exactly when the count is positive, and a positive count implies a start rating that is
  not null. \<open>getStats\<close> returns a result whenever the value of every month can be spread.
\<close>

theorem C9_ratings_present_when_games:
  "(getStats toLowerCase world now uname periodStart periodEnd periodType = Inr r \<longrightarrow>
      (\<forall>c. (endRatings r c \<noteq> None \<longleftrightarrow> 0 < stats r c)
            \<and> (0 < stats r c \<longrightarrow> startRatings r c \<noteq> None)))
   \<and> ((\<forall>k\<in>set (monthsToFetch periodType periodStart periodEnd now).
          bucket_spreads world uname k) \<longrightarrow>
        (\<exists>r. getStats toLowerCase world now uname periodStart periodEnd periodType = Inr r))"
proof (intro conjI impI allI)
  fix c
  assume r: "getStats toLowerCase world now uname periodStart periodEnd periodType = Inr r"
  note f = getStats_Inr(2) [OF r]
  show "endRatings r c \<noteq> None \<longleftrightarrow> 0 < stats r c"
    by (simp add: f aggregate_endRatings aggregate_stats)
  assume "0 < stats r c"
  then show "startRatings r c \<noteq> None"
    by (simp add: f aggregate_startRatings aggregate_stats split: option.splits list.splits)
next
  assume "\<forall>k\<in>set (monthsToFetch periodType periodStart periodEnd now).
      bucket_spreads world uname k"
  then show "\<exists>r. getStats toLowerCase world now uname periodStart periodEnd periodType = Inr r"
    by (simp add: getStats_returns)
qed

theorem C9_witness:
  "\<exists>r. getStats ascii_toLowerCase week_world week_now ''alice'' week_start week_end Weekly = Inr r
     \<and> 0 < stats r Blitz \<and> endRatings r Blitz \<noteq> None \<and> startRatings r Blitz \<noteq> None"
proof -
  let ?r = "aggregate ascii_toLowerCase ''alice'' [game_oct2, game_sep30] week_start week_end"
  note c = C9_ratings_present_when_games [of ascii_toLowerCase week_world week_now
      "''alice''" week_start week_end Weekly ?r]
  from c week_getStats
  have a: "\<forall>c. (endRatings ?r c \<noteq> None \<longleftrightarrow> 0 < stats ?r c)
            \<and> (0 < stats ?r c \<longrightarrow> startRatings ?r c \<noteq> None)"
    by blast
  from c week_spreads
  have "\<exists>r. getStats ascii_toLowerCase week_world week_now ''alice'' week_start week_end Weekly
      = Inr r"
    by blast
  have "stats ?r Blitz = 2" by (simp add: aggregate_stats week_mode_games)
  with a week_getStats show ?thesis by auto
qed

text \<open>
  C10. The period's games that \<open>getStats\<close> returns are not sorted by end time: they are the
  games of the period in the order of the fetch, month after month (the filter runs on the
  merged list before that list is sorted), and the months are fetched in the order of their
  keys as strings, in which, within one year, the months 10 to 12 come before the months 2
  to 9. In the week of 2025-10-03 the game of October comes before the game of September.
\<close>

theorem C10_fetch_order:
  "(getStats toLowerCase world now uname periodStart periodEnd periodType = Inr r \<longrightarrow>
      (\<exists>fetched.
         fetch_loop world uname (monthsToFetch periodType periodStart periodEnd now) [] =
           Inr fetched
         \<and> fetched = concat (map (bucket_games world uname)
               (monthsToFetch periodType periodStart periodEnd now))
         \<and> gamesInPeriod r = filter (in_period periodStart periodEnd) fetched))
   \<and> ((\<forall>k\<in>set (monthsToFetch periodType periodStart periodEnd now).
          bucket_spreads world uname k) \<longrightarrow>
        (\<exists>r. getStats toLowerCase world now uname periodStart periodEnd periodType = Inr r))
   \<and> sorted (monthsToFetch periodType periodStart periodEnd now)
   \<and> distinct (monthsToFetch periodType periodStart periodEnd now)
   \<and> (\<forall>m\<in>{10, 11, 12}. \<forall>m'\<in>{2, 3, 4, 5, 6, 7, 8, 9}. month_key y m < month_key y m')
   \<and> (\<exists>r. getStats ascii_toLowerCase week_world week_now ''alice'' week_start week_end Weekly
          = Inr r
        \<and> \<not> sorted (map end_time (gamesInPeriod r)))"
proof (intro conjI impI)
  let ?months = "monthsToFetch periodType periodStart periodEnd now"
  let ?f = "fetched_games world now uname periodStart periodEnd periodType"
  show "\<exists>fetched. fetch_loop world uname ?months [] = Inr fetched
      \<and> fetched = concat (map (bucket_games world uname) ?months)
      \<and> gamesInPeriod r = filter (in_period periodStart periodEnd) fetched"
    if r: "getStats toLowerCase world now uname periodStart periodEnd periodType = Inr r"
  proof -
    note f = getStats_Inr [OF r]
    have "?f = concat (map (bucket_games world uname) ?months)"
      by (simp add: fetched_games_def)
    moreover have "gamesInPeriod r = filter (in_period periodStart periodEnd) ?f"
      by (simp add: f(2) aggregate_gamesInPeriod)
    ultimately show ?thesis using f(1) by blast
  qed
  show "\<exists>r. getStats toLowerCase world now uname periodStart periodEnd periodType = Inr r"
    if "\<forall>k\<in>set ?months. bucket_spreads world uname k"
    using that by (simp add: getStats_returns)
  show "sorted ?months" by (rule sorted_monthsToFetch)
  show "distinct ?months" by (rule distinct_monthsToFetch)
  show "\<forall>m\<in>{10, 11, 12}. \<forall>m'\<in>{2, 3, 4, 5, 6, 7, 8, 9}. month_key y m < month_key y m'"
    using month_key_order by blast
  have "gamesInPeriod (aggregate ascii_toLowerCase ''alice'' [game_oct2, game_sep30]
      week_start week_end) = [game_oct2, game_sep30]"
    by (simp only: aggregate_gamesInPeriod week_in_period)
  with week_getStats week_unsorted
  show "\<exists>r. getStats ascii_toLowerCase week_world week_now ''alice'' week_start week_end Weekly
        = Inr r
      \<and> \<not> sorted (map end_time (gamesInPeriod r))"
    by simp
qed

theorem C10_witness:
  "(10::int) \<in> {10, 11, 12} \<and> (2::int) \<in> {2, 3, 4, 5, 6, 7, 8, 9}
   \<and> month_key 2025 10 = ''2025-10'' \<and> month_key 2025 2 = ''2025-2''
   \<and> ''2025-10'' < ''2025-2''
   \<and> sorted (monthsToFetch Weekly week_start week_end week_now)
   \<and> monthsToFetch Weekly week_start week_end week_now = [''2025-10'', ''2025-8'', ''2025-9'']
   \<and> bucket_spreads week_world ''alice'' ''2025-10''
   \<and> bucket_spreads week_world ''alice'' ''2025-8''
   \<and> bucket_spreads week_world ''alice'' ''2025-9''
   \<and> (\<exists>fetched.
        fetch_loop week_world ''alice''
          (monthsToFetch Weekly week_start week_end week_now) [] = Inr fetched
        \<and> fetched = bucket_games week_world ''alice'' ''2025-10''
            @ bucket_games week_world ''alice'' ''2025-8''
            @ bucket_games week_world ''alice'' ''2025-9''
        \<and> gamesInPeriod
            (aggregate ascii_toLowerCase ''alice'' [game_oct2, game_sep30] week_start week_end) =
            filter (in_period week_start week_end) fetched)"
proof -
  let ?r = "aggregate ascii_toLowerCase ''alice'' [game_oct2, game_sep30] week_start week_end"
  have k: "month_key 2025 10 = ''2025-10''" "month_key 2025 2 = ''2025-2''"
    by code_simp+
  note c = C10_fetch_order [of ascii_toLowerCase week_world week_now "''alice''" week_start
      week_end Weekly ?r 2025]
  from c have "sorted (monthsToFetch Weekly week_start week_end week_now)"
    and "\<forall>m\<in>{10, 11, 12}. \<forall>m'\<in>{2, 3, 4, 5, 6, 7, 8, 9}. month_key 2025 m < month_key 2025 m'"
    by blast+
  then have o: "sorted (monthsToFetch Weekly week_start week_end week_now)"
    "month_key 2025 10 < month_key 2025 2"
    by simp_all
  from c week_getStats obtain fetched where
    f: "fetch_loop week_world ''alice''
        (monthsToFetch Weekly week_start week_end week_now) [] = Inr fetched"
    and e: "fetched = concat (map (bucket_games week_world ''alice'')
        (monthsToFetch Weekly week_start week_end week_now))"
    and g: "gamesInPeriod ?r = filter (in_period week_start week_end) fetched"
    by blast
  from e have e': "fetched = bucket_games week_world ''alice'' ''2025-10''
      @ bucket_games week_world ''alice'' ''2025-8''
      @ bucket_games week_world ''alice'' ''2025-9''"
    by (simp add: week_months)
  have sp: "bucket_spreads week_world ''alice'' ''2025-10''"
    "bucket_spreads week_world ''alice'' ''2025-8''"
    "bucket_spreads week_world ''alice'' ''2025-9''"
    using week_spreads by (simp_all add: week_months)
  have "(10::int) \<in> {10, 11, 12}" "(2::int) \<in> {2, 3, 4, 5, 6, 7, 8, 9}" by simp_all
  moreover have "''2025-10'' < ''2025-2''" using o(2) by (simp only: k)
  moreover have "\<exists>fetched.
        fetch_loop week_world ''alice''
          (monthsToFetch Weekly week_start week_end week_now) [] = Inr fetched
        \<and> fetched = bucket_games week_world ''alice'' ''2025-10''
            @ bucket_games week_world ''alice'' ''2025-8''
            @ bucket_games week_world ''alice'' ''2025-9''
        \<and> gamesInPeriod ?r = filter (in_period week_start week_end) fetched"
    using f e' g by blast
  ultimately show ?thesis
    using k o(1) week_months sp by blast
qed

end
